theory Spec2Isabelle
  imports Complex_Main
begin

section \<open>Conventions of the embedding\<close>

text \<open>
  The program is Python over numpy. Its floating-point numbers are modelled by the reals:
  a statement below is about the arithmetic the code writes down, not about rounding.
  The two places where rounding decides what the code does next are the exceptions: the
  filter of the scores in \<open>compute_fitness\<close> and the size of the pool of parents take
  the rounded operations as a parameter (section on fitness evaluation).
  A numpy array of weights is a \<open>real list\<close>; the code never writes into a genotype array
  in place (it only rebinds \<open>self.genotype\<close> in the constructor), so arrays are values here,
  and the constructor is modelled a second time over an explicit store of arrays where
  aliasing is the question.

  A Python exception is a value \<open>Inl e\<close> of a sum type, a normal return is \<open>Inr v\<close>.

  Random draws are arguments. A function that calls the random library takes the raw
  draws of that call as a sequence \<open>nat \<Rightarrow> real\<close> (or \<open>nat \<Rightarrow> nat\<close>), whose \<open>i\<close>-th entry is
  the \<open>i\<close>-th number the generator hands out, and the model shapes them the way the library
  does (scaling, range, number of samples). Nothing is assumed about their distribution.
\<close>

datatype error = ValueError | IndexError | ZeroDivisionError

section \<open>genetic.py: the controller\<close>

record controller =
  num_features :: nat
  hidden_size :: nat
  genotype :: "real list"
  fit_score :: real
  fit_rel :: real
  previous_y :: "real option"

text \<open>\<open>total_weights = (num_features * hidden_size) + hidden_size + hidden_size + 1\<close>\<close>

definition total_weights :: "nat \<Rightarrow> nat \<Rightarrow> nat" where
  "total_weights F H = (F * H) + H + H + 1"

text \<open>
  \<open>np.random.uniform(low, high, size)\<close>: \<open>size\<close> samples \<open>low + (high - low) * u\<close>, one per raw
  draw \<open>u\<close> of the generator.
\<close>

definition random_uniform :: "real \<Rightarrow> real \<Rightarrow> nat \<Rightarrow> (nat \<Rightarrow> real) \<Rightarrow> real list" where
  "random_uniform low high n u = map (\<lambda>i. low + (high - low) * u i) [0..<n]"

text \<open>
  \<open>np.random.normal(0, scale, size)\<close>: \<open>size\<close> samples \<open>0 + scale * z\<close>, one per standard draw
  \<open>z\<close>; numpy raises \<open>ValueError\<close> for a negative scale.
\<close>

definition random_normal :: "real \<Rightarrow> nat \<Rightarrow> (nat \<Rightarrow> real) \<Rightarrow> error + real list" where
  "random_normal scale n z =
     (if scale < 0 then Inl ValueError
      else Inr (map (\<lambda>i. 0 + scale * z i) [0..<n]))"

text \<open>\<open>np.clip(a, lo, hi)\<close> is \<open>minimum(maximum(a, lo), hi)\<close>, elementwise, in a new array.\<close>

definition np_clip :: "real list \<Rightarrow> real \<Rightarrow> real \<Rightarrow> real list" where
  "np_clip a lo hi = map (\<lambda>x. min (max x lo) hi) a"

text \<open>
  \<open>_xavier_init\<close>: \<open>6.0 / (num_features + hidden_size)\<close> divides a Python float by a Python
  int, which raises \<open>ZeroDivisionError\<close> at zero.
\<close>

definition xavier_init :: "nat \<Rightarrow> nat \<Rightarrow> nat \<Rightarrow> (nat \<Rightarrow> real) \<Rightarrow> error + real list" where
  "xavier_init F H n u =
     (if F + H = 0 then Inl ZeroDivisionError
      else (let limit = sqrt (6 / real (F + H))
            in Inr (random_uniform (- limit) limit n u)))"

text \<open>
  \<open>Genetic_AI.__init__(genotype, num_features, hidden_size, mutate, noise_sd)\<close>. The last
  argument holds the raw draws of the one random call the constructor makes (the uniform
  draws of the initialization, or the standard normal draws of the mutation). The two
  arrays of \<open>genotype + mutation\<close> have the same length by construction.
\<close>

definition init_genotype ::
  "real list option \<Rightarrow> nat \<Rightarrow> nat \<Rightarrow> bool \<Rightarrow> real \<Rightarrow> (nat \<Rightarrow> real) \<Rightarrow> error + real list" where
  "init_genotype g F H mutate noise_sd rnd =
     (case g of
        None \<Rightarrow> xavier_init F H (total_weights F H) rnd
      | Some gt \<Rightarrow>
          if \<not> mutate then Inr gt
          else (case random_normal noise_sd (length gt) rnd of
                  Inl e \<Rightarrow> Inl e
                | Inr mutation \<Rightarrow> Inr (np_clip (map2 (+) gt mutation) (- 3) 3)))"

definition Genetic_AI ::
  "real list option \<Rightarrow> nat \<Rightarrow> nat \<Rightarrow> bool \<Rightarrow> real \<Rightarrow> (nat \<Rightarrow> real) \<Rightarrow> error + controller" where
  "Genetic_AI g F H mutate noise_sd rnd =
     (case init_genotype g F H mutate noise_sd rnd of
        Inl e \<Rightarrow> Inl e
      | Inr gt \<Rightarrow>
          Inr \<lparr>num_features = F, hidden_size = H, genotype = gt,
               fit_score = 0, fit_rel = 0, previous_y = None\<rparr>)"

text \<open>Given a weight vector and no mutation, the constructor stores the vector.\<close>

lemma Genetic_AI_unmutated:
  "Genetic_AI (Some g) F H False noise_sd rnd =
     Inr \<lparr>num_features = F, hidden_size = H, genotype = g,
          fit_score = 0, fit_rel = 0, previous_y = None\<rparr>"
  by (simp add: Genetic_AI_def init_genotype_def)

section \<open>Mutation\<close>

text \<open>
  The constructor again, over a store of numpy arrays, to see which arrays it creates and
  which it shares. An array is known by its address (its position in the store) and
  \<open>alloc\<close> puts a new array behind the existing ones. \<open>self.genotype = genotype\<close> binds the
  caller's array itself; \<open>np.random.normal\<close>, \<open>genotype + mutation\<close> and \<open>np.clip\<close> each
  return a new array. The function returns the address bound to \<open>self.genotype\<close>.
\<close>

type_synonym array_store = "real list list"

definition alloc :: "array_store \<Rightarrow> real list \<Rightarrow> nat \<times> array_store" where
  "alloc s a = (length s, s @ [a])"

definition init_genotype_st ::
  "array_store \<Rightarrow> nat option \<Rightarrow> nat \<Rightarrow> nat \<Rightarrow> bool \<Rightarrow> real \<Rightarrow> (nat \<Rightarrow> real)
     \<Rightarrow> error + (nat \<times> array_store)" where
  "init_genotype_st s g F H mutate noise_sd rnd =
     (case g of
        None \<Rightarrow>
          (case xavier_init F H (total_weights F H) rnd of
             Inl e \<Rightarrow> Inl e
           | Inr a \<Rightarrow> Inr (alloc s a))
      | Some r \<Rightarrow>
          if \<not> mutate then Inr (r, s)
          else (case random_normal noise_sd (length (s ! r)) rnd of
                  Inl e \<Rightarrow> Inl e
                | Inr m \<Rightarrow>
                    (let (mutation, s1) = alloc s m;
                         (summed, s2) = alloc s1 (map2 (+) (s1 ! r) (s1 ! mutation));
                         (clipped, s3) = alloc s2 (np_clip (s2 ! summed) (- 3) 3)
                     in Inr (clipped, s3))))"

text \<open>
  The two models of the constructor agree: for an argument that is an array of the
  store, the array bound to \<open>self.genotype\<close> holds the list the constructor over values
  computes, and the same exceptions are raised.
\<close>

lemma init_genotype_st_agrees:
  assumes "case g of None \<Rightarrow> True | Some r \<Rightarrow> r < length s"
  shows "init_genotype (map_option (\<lambda>r. s ! r) g) F H mutate noise_sd rnd =
           (case init_genotype_st s g F H mutate noise_sd rnd of
              Inl e \<Rightarrow> Inl e
            | Inr (r', s') \<Rightarrow> Inr (s' ! r'))"
  using assms
  by (cases g)
     (auto simp add: init_genotype_def init_genotype_st_def alloc_def nth_append Let_def
        split: sum.splits)

lemma clip_bounds: "- 3 \<le> min (max (x::real) (- 3)) 3 \<and> min (max x (- 3)) 3 \<le> 3"
  by simp

lemma mutated_nth:
  assumes "i < length g"
  shows "np_clip (map2 (+) g (map (\<lambda>i. 0 + sd * z i) [0..<length g])) (- 3) 3 ! i =
           min (max (g ! i + sd * z i) (- 3)) 3"
  using assms by (simp add: np_clip_def)

lemma mutated_length:
  "length (np_clip (map2 (+) g (map (\<lambda>i. 0 + sd * z i) [0..<length g])) (- 3) 3) = length g"
  by (simp add: np_clip_def)

lemma init_genotype_st_mutate:
  assumes "0 \<le> noise_sd" and "r < length s"
  shows "init_genotype_st s (Some r) F H True noise_sd z =
           Inr (length s + 2,
                s @ [map (\<lambda>i. 0 + noise_sd * z i) [0..<length (s ! r)],
                     map2 (+) (s ! r) (map (\<lambda>i. 0 + noise_sd * z i) [0..<length (s ! r)]),
                     np_clip (map2 (+) (s ! r)
                        (map (\<lambda>i. 0 + noise_sd * z i) [0..<length (s ! r)])) (- 3) 3])"
  using assms
  by (simp add: init_genotype_st_def random_normal_def alloc_def nth_append)

lemma init_genotype_mutate:
  assumes "0 \<le> noise_sd"
  shows "init_genotype (Some g) F H True noise_sd z =
           Inr (np_clip (map2 (+) g (map (\<lambda>i. 0 + noise_sd * z i) [0..<length g])) (- 3) 3)"
  using assms by (simp add: init_genotype_def random_normal_def)

text \<open>
  C3. Mutation is the constructor called with \<open>mutate=True\<close> on the source's weight array
  (address \<open>r\<close> of the store \<open>s\<close>), with a noise scale that is not negative. It returns; the
  new controller's weights sit in a new array \<open>r'\<close>; the weight at each index is the
  source weight plus the drawn noise \<open>noise_sd * z i\<close>, clipped to \<open>[-3, 3]\<close>, hence inside
  \<open>[-3, 3]\<close>; and every array that existed before, the source's among them, has the
  contents it had.
\<close>

theorem mutation_clipped_source_unchanged:
  assumes "0 \<le> noise_sd" and "r < length s"
  shows "\<exists>r' s'. init_genotype_st s (Some r) F H True noise_sd z = Inr (r', s') \<and>
           Genetic_AI (Some (s ! r)) F H True noise_sd z =
             Inr \<lparr>num_features = F, hidden_size = H, genotype = s' ! r',
                  fit_score = 0, fit_rel = 0, previous_y = None\<rparr> \<and>
           length (s' ! r') = length (s ! r) \<and>
           (\<forall>i<length (s ! r).
              s' ! r' ! i = min (max (s ! r ! i + noise_sd * z i) (- 3)) 3 \<and>
              - 3 \<le> s' ! r' ! i \<and> s' ! r' ! i \<le> 3) \<and>
           length s \<le> r' \<and> r' \<noteq> r \<and> (\<forall>a<length s. s' ! a = s ! a)"
proof -
  let ?m = "map (\<lambda>i. 0 + noise_sd * z i) [0..<length (s ! r)]"
  let ?new = "np_clip (map2 (+) (s ! r) ?m) (- 3) 3"
  define r' where "r' = length s + 2"
  define s' where "s' = s @ [?m, map2 (+) (s ! r) ?m, ?new]"
  have run: "init_genotype_st s (Some r) F H True noise_sd z = Inr (r', s')"
    unfolding r'_def s'_def using assms by (rule init_genotype_st_mutate)
  have new: "s' ! r' = ?new"
    by (simp add: r'_def s'_def nth_append)
  have val: "Genetic_AI (Some (s ! r)) F H True noise_sd z =
               Inr \<lparr>num_features = F, hidden_size = H, genotype = s' ! r',
                    fit_score = 0, fit_rel = 0, previous_y = None\<rparr>"
    using assms(1) by (simp add: Genetic_AI_def init_genotype_mutate new)
  have len: "length (s' ! r') = length (s ! r)"
    by (simp only: new mutated_length)
  have genes: "\<forall>i<length (s ! r).
      s' ! r' ! i = min (max (s ! r ! i + noise_sd * z i) (- 3)) 3 \<and>
      - 3 \<le> s' ! r' ! i \<and> s' ! r' ! i \<le> 3"
  proof (intro allI impI)
    fix i assume "i < length (s ! r)"
    then have "s' ! r' ! i = min (max (s ! r ! i + noise_sd * z i) (- 3)) 3"
      by (simp only: new mutated_nth)
    then show "s' ! r' ! i = min (max (s ! r ! i + noise_sd * z i) (- 3)) 3 \<and>
      - 3 \<le> s' ! r' ! i \<and> s' ! r' ! i \<le> 3"
      using clip_bounds [of "s ! r ! i + noise_sd * z i"] by simp
  qed
  have old: "\<forall>a<length s. s' ! a = s ! a"
    by (simp add: s'_def nth_append)
  have fresh: "length s \<le> r' \<and> r' \<noteq> r"
    using assms(2) by (simp add: r'_def)
  show ?thesis
    using run val len genes old fresh by blast
qed

theorem mutation_clipped_source_unchanged_witness:
  "(0::real) \<le> 1 / 10 \<and> (0::nat) < length [[1, 5 / 2 :: real]] \<and>
   (\<exists>r' s'. init_genotype_st [[1, 5 / 2]] (Some 0) 6 8 True (1 / 10) (\<lambda>i. 10) = Inr (r', s') \<and>
      s' ! r' ! 0 = 2 \<and> s' ! r' ! 1 = 3 \<and> s' ! 0 = [1, 5 / 2])"
proof -
  have h1: "(0::real) \<le> 1 / 10" by simp
  have h2: "(0::nat) < length [[1, 5 / 2 :: real]]" by simp
  from mutation_clipped_source_unchanged [OF h1 h2, of 6 8 "\<lambda>i. 10"]
  obtain r' s' where
    run: "init_genotype_st [[1, 5 / 2]] (Some 0) 6 8 True (1 / 10) (\<lambda>i. 10) = Inr (r', s')" and
    genes: "\<forall>i<length ([[1, 5 / 2 :: real]] ! 0).
      s' ! r' ! i = min (max ([[1, 5 / 2]] ! 0 ! i + 1 / 10 * 10) (- 3)) 3 \<and>
      - 3 \<le> s' ! r' ! i \<and> s' ! r' ! i \<le> 3" and
    old: "\<forall>a<length [[1, 5 / 2 :: real]]. s' ! a = [[1, 5 / 2]] ! a"
    by blast
  from genes have "s' ! r' ! 0 = 2" "s' ! r' ! 1 = 3" by simp_all
  moreover from old have "s' ! 0 = [1, 5 / 2]" by simp
  ultimately show ?thesis using run by simp
qed


section \<open>genetic_controller.py: crossover\<close>

text \<open>
  \<open>random.randint(a, b)\<close> raises \<open>ValueError\<close> on an empty range and otherwise returns an
  integer of \<open>[a, b]\<close>; every one of them is the image of some raw draw \<open>r\<close>.
\<close>

definition randint :: "int \<Rightarrow> int \<Rightarrow> nat \<Rightarrow> error + int" where
  "randint a b r = (if b < a then Inl ValueError else Inr (a + int r mod (b - a + 1)))"

text \<open>
  The draws of one call of \<open>cross\<close>: the results of \<open>random.random()\<close> in the order of the
  calls, the raw draw behind \<open>random.randint\<close>, and the standard normal draws of the
  mutation in the constructor.
\<close>

record cross_draws =
  coins :: "nat \<Rightarrow> real"
  cut_draw :: nat
  noise_draws :: "nat \<Rightarrow> real"

text \<open>
  The uniform loop, \<open>for i in range(len(a1.genotype))\<close>, with the list built so far.
  \<open>a2.genotype[i]\<close> raises \<open>IndexError\<close> past the end of the second parent's array, and it
  is only evaluated when the coin picks the second parent.
\<close>

fun uniform_loop ::
  "real list \<Rightarrow> real list \<Rightarrow> (nat \<Rightarrow> real) \<Rightarrow> nat list \<Rightarrow> real list \<Rightarrow> error + real list" where
  "uniform_loop g1 g2 c [] new_genotype = Inr new_genotype"
| "uniform_loop g1 g2 c (i # is) new_genotype =
     (if c i < 0.5 then uniform_loop g1 g2 c is (new_genotype @ [g1 ! i])
      else if i < length g2 then uniform_loop g1 g2 c is (new_genotype @ [g2 ! i])
      else Inl IndexError)"

text \<open>The weights \<open>w1\<close>, \<open>w2\<close> of the blend branch (lines 24 to 29).\<close>

definition blend_weights :: "real \<Rightarrow> real \<Rightarrow> real \<times> real" where
  "blend_weights fit1 fit2 =
     (let total_fitness = fit1 + fit2
      in if total_fitness > 0 then (fit1 / total_fitness, fit2 / total_fitness)
         else (0.5, 0.5))"

fun blend_loop ::
  "real \<Rightarrow> real \<Rightarrow> real list \<Rightarrow> real list \<Rightarrow> nat list \<Rightarrow> real list \<Rightarrow> error + real list" where
  "blend_loop w1 w2 g1 g2 [] new_genotype = Inr new_genotype"
| "blend_loop w1 w2 g1 g2 (i # is) new_genotype =
     (if i < length g2
      then blend_loop w1 w2 g1 g2 is (new_genotype @ [w1 * g1 ! i + w2 * g2 ! i])
      else Inl IndexError)"

text \<open>
  The list \<open>new_genotype\<close> that \<open>cross\<close> has built when it reaches its last line. The
  strategy is a string; anything but \<open>"uniform"\<close> and \<open>"blend"\<close> is the single-point
  crossover, whose cut is at least 1, so both slices are plain prefixes and suffixes.
\<close>

definition new_genotype :: "controller \<Rightarrow> controller \<Rightarrow> string \<Rightarrow> cross_draws \<Rightarrow> error + real list" where
  "new_genotype a1 a2 aggregate d =
     (if aggregate = ''uniform''
      then uniform_loop (genotype a1) (genotype a2) (coins d) [0..<length (genotype a1)] []
      else if aggregate = ''blend''
      then (let (w1, w2) = blend_weights (fit_score a1) (fit_score a2)
            in blend_loop w1 w2 (genotype a1) (genotype a2) [0..<length (genotype a1)] [])
      else (case randint 1 (int (length (genotype a1)) - 1) (cut_draw d) of
              Inl e \<Rightarrow> Inl e
            | Inr crossover_point \<Rightarrow>
                Inr (take (nat crossover_point) (genotype a1) @
                     drop (nat crossover_point) (genotype a2))))"

text \<open>
  \<open>cross\<close> returns \<open>Genetic_AI(genotype=np.array(new_genotype), mutate=True)\<close>: the
  architecture and the noise scale are the constructor's defaults 6, 8 and 0.1.
\<close>

definition cross :: "controller \<Rightarrow> controller \<Rightarrow> string \<Rightarrow> cross_draws \<Rightarrow> error + controller" where
  "cross a1 a2 aggregate d =
     (case new_genotype a1 a2 aggregate d of
        Inl e \<Rightarrow> Inl e
      | Inr g \<Rightarrow> Genetic_AI (Some g) 6 8 True 0.1 (noise_draws d))"

lemma uniform_loop_result:
  assumes "\<forall>i\<in>set is. c i < 0.5 \<or> i < length g2"
  shows "uniform_loop g1 g2 c is acc =
           Inr (acc @ map (\<lambda>i. if c i < 0.5 then g1 ! i else g2 ! i) is)"
  using assms by (induction "is" arbitrary: acc) auto

lemma blend_loop_result:
  assumes "\<forall>i\<in>set is. i < length g2"
  shows "blend_loop w1 w2 g1 g2 is acc =
           Inr (acc @ map (\<lambda>i. w1 * g1 ! i + w2 * g2 ! i) is)"
  using assms by (induction "is" arbitrary: acc) auto

lemma blend_new_genotype:
  assumes "length (genotype a1) \<le> length (genotype a2)"
  shows "new_genotype a1 a2 ''blend'' d =
           Inr (map (\<lambda>i. fst (blend_weights (fit_score a1) (fit_score a2)) * genotype a1 ! i +
                         snd (blend_weights (fit_score a1) (fit_score a2)) * genotype a2 ! i)
                  [0..<length (genotype a1)])"
proof -
  have "\<forall>i\<in>set [0..<length (genotype a1)]. i < length (genotype a2)"
    using assms by simp
  then show ?thesis
    by (simp add: new_genotype_def blend_loop_result split_def Let_def)
qed

lemma convex_between:
  fixes x y u v :: real
  assumes "0 \<le> u" and "0 \<le> v" and "u + v = 1"
  shows "min x y \<le> u * x + v * y \<and> u * x + v * y \<le> max x y"
proof
  have "u * min x y + v * min x y \<le> u * x + v * y"
    using assms(1,2) by (intro add_mono mult_left_mono) simp_all
  moreover have "u * min x y + v * min x y = (u + v) * min x y"
    by (simp add: distrib_right)
  ultimately show "min x y \<le> u * x + v * y"
    using assms(3) by simp
next
  show "u * x + v * y \<le> max x y"
    using assms by (intro convex_bound_le) simp_all
qed

lemma blend_weights_positive:
  assumes "0 < fit1" and "0 < fit2"
  shows "blend_weights fit1 fit2 = (fit1 / (fit1 + fit2), fit2 / (fit1 + fit2))"
    and "fit1 / (fit1 + fit2) + fit2 / (fit1 + fit2) = 1"
    and "0 \<le> fit1 / (fit1 + fit2)" and "0 \<le> fit2 / (fit1 + fit2)"
proof -
  have pos: "0 < fit1 + fit2" using assms by simp
  then show "blend_weights fit1 fit2 = (fit1 / (fit1 + fit2), fit2 / (fit1 + fit2))"
    by (simp add: blend_weights_def Let_def)
  have "fit1 / (fit1 + fit2) + fit2 / (fit1 + fit2) = (fit1 + fit2) / (fit1 + fit2)"
    by (rule add_divide_distrib [symmetric])
  then show "fit1 / (fit1 + fit2) + fit2 / (fit1 + fit2) = 1"
    using pos by simp
  show "0 \<le> fit1 / (fit1 + fit2)" "0 \<le> fit2 / (fit1 + fit2)"
    using assms by simp_all
qed


text \<open>
  C6. Blend crossover, for parents whose second weight array is at least as long as the
  first (in particular of equal length; a shorter one raises \<open>IndexError\<close>). The list
  \<open>new_genotype\<close> has, at every index \<open>i\<close>, the value \<open>wA * a1[i] + wB * a2[i]\<close>. With both
  fitness scores positive the weights are the fitness shares, they add up to 1, and the
  gene lies between the two parents' genes; with a total fitness that is not positive
  both weights are 0.5. This is the list the crossover produces; \<open>cross\<close> then hands it to
  the constructor with \<open>mutate=True\<close>.
\<close>

theorem blend_crossover_genes:
  assumes "length (genotype a1) \<le> length (genotype a2)"
  shows "\<exists>g. new_genotype a1 a2 ''blend'' d = Inr g \<and>
           cross a1 a2 ''blend'' d = Genetic_AI (Some g) 6 8 True 0.1 (noise_draws d) \<and>
           length g = length (genotype a1) \<and>
           (0 < fit_score a1 \<and> 0 < fit_score a2 \<longrightarrow>
              (let wA = fit_score a1 / (fit_score a1 + fit_score a2);
                   wB = fit_score a2 / (fit_score a1 + fit_score a2)
               in wA + wB = 1 \<and>
                  (\<forall>i<length (genotype a1).
                     g ! i = wA * genotype a1 ! i + wB * genotype a2 ! i \<and>
                     min (genotype a1 ! i) (genotype a2 ! i) \<le> g ! i \<and>
                     g ! i \<le> max (genotype a1 ! i) (genotype a2 ! i)))) \<and>
           (fit_score a1 + fit_score a2 \<le> 0 \<longrightarrow>
              (\<forall>i<length (genotype a1).
                 g ! i = 0.5 * genotype a1 ! i + 0.5 * genotype a2 ! i))"
proof -
  let ?w = "blend_weights (fit_score a1) (fit_score a2)"
  define g where
    "g = map (\<lambda>i. fst ?w * genotype a1 ! i + snd ?w * genotype a2 ! i) [0..<length (genotype a1)]"
  have run: "new_genotype a1 a2 ''blend'' d = Inr g"
    unfolding g_def using assms by (rule blend_new_genotype)
  have off: "cross a1 a2 ''blend'' d = Genetic_AI (Some g) 6 8 True 0.1 (noise_draws d)"
    by (simp add: cross_def run)
  have len: "length g = length (genotype a1)"
    by (simp add: g_def)
  have nth: "g ! i = fst ?w * genotype a1 ! i + snd ?w * genotype a2 ! i"
    if "i < length (genotype a1)" for i
    using that by (simp add: g_def)
  have pos: "let wA = fit_score a1 / (fit_score a1 + fit_score a2);
                 wB = fit_score a2 / (fit_score a1 + fit_score a2)
             in wA + wB = 1 \<and>
                (\<forall>i<length (genotype a1).
                   g ! i = wA * genotype a1 ! i + wB * genotype a2 ! i \<and>
                   min (genotype a1 ! i) (genotype a2 ! i) \<le> g ! i \<and>
                   g ! i \<le> max (genotype a1 ! i) (genotype a2 ! i))"
    if p: "0 < fit_score a1 \<and> 0 < fit_score a2"
  proof -
    let ?wA = "fit_score a1 / (fit_score a1 + fit_score a2)"
    let ?wB = "fit_score a2 / (fit_score a1 + fit_score a2)"
    from p have w: "?w = (?wA, ?wB)" and one: "?wA + ?wB = 1"
      and nn: "0 \<le> ?wA" "0 \<le> ?wB"
      by (simp_all only: blend_weights_positive)
    have each: "g ! i = ?wA * genotype a1 ! i + ?wB * genotype a2 ! i \<and>
          min (genotype a1 ! i) (genotype a2 ! i) \<le> g ! i \<and>
          g ! i \<le> max (genotype a1 ! i) (genotype a2 ! i)"
      if "i < length (genotype a1)" for i
    proof -
      have eq: "g ! i = ?wA * genotype a1 ! i + ?wB * genotype a2 ! i"
        using nth [OF that] by (simp add: w)
      show ?thesis
        unfolding eq using convex_between [OF nn one] by simp
    qed
    show ?thesis unfolding Let_def using one each by blast
  qed
  have nonpos: "\<forall>i<length (genotype a1). g ! i = 0.5 * genotype a1 ! i + 0.5 * genotype a2 ! i"
    if "fit_score a1 + fit_score a2 \<le> 0"
    using that nth by (simp add: blend_weights_def Let_def)
  show ?thesis
    using run off len pos nonpos by blast
qed

theorem blend_crossover_genes_witness:
  "length (genotype \<lparr>num_features = 6, hidden_size = 8, genotype = [1, 2],
              fit_score = 3, fit_rel = 0, previous_y = None\<rparr>)
     \<le> length (genotype \<lparr>num_features = 6, hidden_size = 8, genotype = [3, 6],
              fit_score = 1, fit_rel = 0, previous_y = None\<rparr>) \<and>
   new_genotype
     \<lparr>num_features = 6, hidden_size = 8, genotype = [1, 2],
      fit_score = 3, fit_rel = 0, previous_y = None\<rparr>
     \<lparr>num_features = 6, hidden_size = 8, genotype = [3, 6],
      fit_score = 1, fit_rel = 0, previous_y = None\<rparr>
     ''blend'' \<lparr>coins = \<lambda>i. 0, cut_draw = 0, noise_draws = \<lambda>i. 0\<rparr> = Inr [3 / 2, 3]"
proof -
  let ?a1 = "\<lparr>num_features = 6, hidden_size = 8, genotype = [1, 2 :: real],
              fit_score = 3, fit_rel = 0, previous_y = None\<rparr>"
  let ?a2 = "\<lparr>num_features = 6, hidden_size = 8, genotype = [3, 6 :: real],
              fit_score = 1, fit_rel = 0, previous_y = None\<rparr>"
  let ?d = "\<lparr>coins = \<lambda>i. 0, cut_draw = 0, noise_draws = \<lambda>i. 0\<rparr>"
  have h: "length (genotype ?a1) \<le> length (genotype ?a2)" by simp
  from blend_crossover_genes [OF h, of ?d]
  obtain g where run: "new_genotype ?a1 ?a2 ''blend'' ?d = Inr g"
    and len: "length g = length (genotype ?a1)"
    and pos: "0 < fit_score ?a1 \<and> 0 < fit_score ?a2 \<longrightarrow>
              (let wA = fit_score ?a1 / (fit_score ?a1 + fit_score ?a2);
                   wB = fit_score ?a2 / (fit_score ?a1 + fit_score ?a2)
               in wA + wB = 1 \<and>
                  (\<forall>i<length (genotype ?a1).
                     g ! i = wA * genotype ?a1 ! i + wB * genotype ?a2 ! i \<and>
                     min (genotype ?a1 ! i) (genotype ?a2 ! i) \<le> g ! i \<and>
                     g ! i \<le> max (genotype ?a1 ! i) (genotype ?a2 ! i)))"
    by blast
  from pos have "g ! 0 = 3 / 2" "g ! 1 = 3" by (simp_all add: Let_def)
  with len have "g = [3 / 2, 3]"
    by (cases g; cases "tl g"; cases "tl (tl g)") auto
  with run h show ?thesis by simp
qed


section \<open>genetic_controller.py: fitness evaluation\<close>

text \<open>
  Where the code compares computed numbers to choose what it does, rounding decides at
  the boundary, so the operations behind those comparisons are parameters: a value of
  \<open>arithmetic\<close> holds the functions that return the doubles that \<open>np.mean\<close>, \<open>np.std\<close>, the
  subtraction of a double from an array entry and the product of an \<open>int\<close> and a \<open>float\<close>
  compute. Doubling a double and taking its absolute value are exact.
\<close>

record arithmetic =
  fl_mean :: "real list \<Rightarrow> real"
  fl_std :: "real list \<Rightarrow> real"
  fl_sub :: "real \<Rightarrow> real \<Rightarrow> real"
  fl_mul :: "real \<Rightarrow> real \<Rightarrow> real"

text \<open>
  The same operations without rounding: the mean, the population standard deviation
  \<open>sqrt(mean(abs(x - x.mean())**2))\<close>, the difference and the product.
\<close>

definition mean :: "real list \<Rightarrow> real" where
  "mean xs = sum_list xs / real (length xs)"

definition np_std :: "real list \<Rightarrow> real" where
  "np_std xs = sqrt (mean (map (\<lambda>x. \<bar>x - mean xs\<bar> ^ 2) xs))"

definition exact_arithmetic :: arithmetic where
  "exact_arithmetic = \<lparr>fl_mean = mean, fl_std = np_std, fl_sub = (-), fl_mul = (*)\<rparr>"

text \<open>\<open>np.mean\<close> of an empty array is \<open>nan\<close> (no exception): \<open>None\<close> stands for it.\<close>

definition np_mean :: "arithmetic \<Rightarrow> real list \<Rightarrow> real option" where
  "np_mean ar xs = (if xs = [] then None else Some (fl_mean ar xs))"

text \<open>
  The environment \<open>flappybird.mains\<close> is not part of the sources: it is a parameter. Its
  \<open>trial\<close>-th call takes the agent and returns the score together with the agent as the
  episode leaves it, or raises. The loop of \<open>compute_fitness\<close> resets \<open>previous_y\<close> before
  every episode and appends the score.
\<close>

type_synonym environment = "nat \<Rightarrow> controller \<Rightarrow> error + (real \<times> controller)"

fun run_trials :: "environment \<Rightarrow> controller \<Rightarrow> nat list \<Rightarrow> real list \<Rightarrow> error + (real list \<times> controller)" where
  "run_trials mains agent [] fitness = Inr (fitness, agent)"
| "run_trials mains agent (trial # trials) fitness =
     (case mains trial (agent\<lparr>previous_y := None\<rparr>) of
        Inl e \<Rightarrow> Inl e
      | Inr (score, agent') \<Rightarrow> run_trials mains agent' trials (fitness @ [score]))"

text \<open>
  Lines 54 to 65: the aggregation of the collected scores, in the arithmetic \<open>ar\<close>. The
  filter compares \<open>np.abs(fitness_array - mean_fit)\<close> with \<open>2 * std_fit\<close>, entry by entry.
\<close>

definition aggregate_fitness :: "arithmetic \<Rightarrow> real list \<Rightarrow> real option" where
  "aggregate_fitness ar fitness =
     (if length fitness > 2
      then (let mean_fit = fl_mean ar fitness; std_fit = fl_std ar fitness
            in if std_fit > 0
               then (let filtered_fitness =
                           filter (\<lambda>x. \<bar>fl_sub ar x mean_fit\<bar> \<le> 2 * std_fit) fitness
                     in if length filtered_fitness > 0 then np_mean ar filtered_fitness
                        else np_mean ar fitness)
               else np_mean ar fitness)
      else np_mean ar fitness)"

definition compute_fitness ::
  "arithmetic \<Rightarrow> environment \<Rightarrow> controller \<Rightarrow> nat \<Rightarrow> error + (real option \<times> controller)" where
  "compute_fitness ar mains agent num_trials =
     (case run_trials mains agent [0..<num_trials] [] of
        Inl e \<Rightarrow> Inl e
      | Inr (fitness, agent') \<Rightarrow> Inr (aggregate_fitness ar fitness, agent'))"

text \<open>The aggregation without rounding.\<close>

definition aggregate_scores :: "real list \<Rightarrow> real option" where
  "aggregate_scores fitness = aggregate_fitness exact_arithmetic fitness"

text \<open>
  The rule of Evaluate in the words of the specification (section 4.2), for a trial count
  and the scores collected, on the numbers as the arithmetic computes them: with more
  than two trials and a nonzero standard deviation, the mean of the scores at most two
  standard deviations from the mean, or of all scores if none is left; otherwise the
  mean of all scores.
\<close>

definition spec_evaluate :: "arithmetic \<Rightarrow> nat \<Rightarrow> real list \<Rightarrow> real" where
  "spec_evaluate ar trials scores =
     (if trials > 2 \<and> fl_std ar scores \<noteq> 0
      then (let kept = filter (\<lambda>x. \<bar>fl_sub ar x (fl_mean ar scores)\<bar>
                                    \<le> 2 * fl_std ar scores) scores
            in if kept = [] then fl_mean ar scores else fl_mean ar kept)
      else fl_mean ar scores)"

text \<open>
  What the example of five scores needs from the arithmetic: the mean, the standard
  deviation and the differences from the mean are off by at most a thousandth. Doubles
  are off by far less.
\<close>

definition accurate_on :: "arithmetic \<Rightarrow> real list \<Rightarrow> bool" where
  "accurate_on ar xs =
     (\<bar>fl_mean ar xs - mean xs\<bar> \<le> 1 / 1000 \<and>
      \<bar>fl_std ar xs - np_std xs\<bar> \<le> 1 / 1000 \<and>
      list_all (\<lambda>x. \<bar>fl_sub ar x (fl_mean ar xs) - (x - fl_mean ar xs)\<bar> \<le> 1 / 1000) xs)"

lemma np_std_nonneg: "0 \<le> np_std xs"
proof -
  have "0 \<le> sum_list (map (\<lambda>x. \<bar>x - mean xs\<bar> ^ 2) xs)"
    by (rule sum_list_nonneg) auto
  then show ?thesis
    by (simp add: np_std_def mean_def [of "map f ys" for f ys])
qed

lemma run_trials_returns:
  assumes "\<forall>t\<in>set ts. \<forall>a. \<exists>sc a'. mains t a = Inr (sc, a')"
  shows "\<exists>scores agent'. run_trials mains agent ts acc = Inr (scores, agent') \<and>
           length scores = length acc + length ts"
  using assms
proof (induction ts arbitrary: agent acc)
  case Nil
  then show ?case by simp
next
  case (Cons t ts)
  from Cons.prems obtain sc a' where step: "mains t (agent\<lparr>previous_y := None\<rparr>) = Inr (sc, a')"
    by (metis list.set_intros(1))
  from Cons.prems have "\<forall>t\<in>set ts. \<forall>a. \<exists>sc a'. mains t a = Inr (sc, a')"
    by simp
  from Cons.IH [OF this, of a' "acc @ [sc]"] show ?case
    by (simp add: step)
qed

lemma aggregate_spec:
  assumes "0 \<le> fl_std ar fitness"
  shows "aggregate_fitness ar fitness =
     (if fitness = [] then None else Some (spec_evaluate ar (length fitness) fitness))"
proof -
  have pos: "(0 < fl_std ar fitness) = (fl_std ar fitness \<noteq> 0)"
    using assms by linarith
  show ?thesis
    by (simp add: aggregate_fitness_def spec_evaluate_def np_mean_def Let_def pos)
qed

lemma aggregate_scores_exact:
  "aggregate_scores fitness =
     (if length fitness > 2
      then (if np_std fitness > 0
            then (if filter (\<lambda>x. \<bar>x - mean fitness\<bar> \<le> 2 * np_std fitness) fitness \<noteq> []
                  then Some (mean (filter (\<lambda>x. \<bar>x - mean fitness\<bar> \<le> 2 * np_std fitness) fitness))
                  else Some (mean fitness))
            else Some (mean fitness))
      else if fitness = [] then None else Some (mean fitness))"
  by (auto simp add: aggregate_scores_def aggregate_fitness_def exact_arithmetic_def
      np_mean_def Let_def)


lemma example_scores_mean: "mean [10, 11, 9, 10, 200] = 48"
  by (simp add: mean_def)

lemma example_scores_std: "np_std [10, 11, 9, 10, 200] = sqrt (28882 / 5)"
  by (simp add: np_std_def example_scores_mean) (simp add: mean_def)

lemma example_std_lower: "760026 / 10000 \<le> sqrt (28882 / 5)"
  by (rule real_le_rsqrt) (simp add: power2_eq_square)

text \<open>
  The five scores of the example in an arithmetic that is off by at most a thousandth:
  every score is kept, 200 too, and the result is the computed mean of all five, which
  is 48 up to that error.
\<close>

lemma example_scores_all_kept:
  assumes "accurate_on ar [10, 11, 9, 10, 200]"
  shows "aggregate_fitness ar [10, 11, 9, 10, 200] = Some (fl_mean ar [10, 11, 9, 10, 200])"
    and "\<bar>fl_mean ar [10, 11, 9, 10, 200] - 48\<bar> \<le> 1 / 1000"
proof -
  define ex :: "real list" where "ex = [10, 11, 9, 10, 200]"
  define m where "m = fl_mean ar ex"
  define sd where "sd = fl_std ar ex"
  from assms have am: "\<bar>m - 48\<bar> \<le> 1 / 1000"
    and asd: "\<bar>sd - sqrt (28882 / 5)\<bar> \<le> 1 / 1000"
    and asub: "\<forall>x\<in>set ex. \<bar>fl_sub ar x m - (x - m)\<bar> \<le> 1 / 1000"
    by (simp_all add: accurate_on_def ex_def m_def sd_def example_scores_mean
        example_scores_std list_all_iff)
  from asd example_std_lower have sd_lower: "760016 / 10000 \<le> sd"
    by linarith
  then have sd_pos: "0 < sd"
    by linarith
  have near: "\<bar>fl_sub ar x m\<bar> \<le> 2 * sd" if "x \<in> set ex" for x
  proof -
    from that have "\<bar>x - 48\<bar> \<le> 152"
      by (auto simp add: ex_def)
    moreover from asub that have "\<bar>fl_sub ar x m - (x - m)\<bar> \<le> 1 / 1000"
      by blast
    ultimately have "\<bar>fl_sub ar x m\<bar> \<le> 152 + 2 / 1000"
      using am by linarith
    with sd_lower show ?thesis
      by linarith
  qed
  then have kept: "filter (\<lambda>x. \<bar>fl_sub ar x m\<bar> \<le> 2 * sd) ex = ex"
    by (simp add: filter_id_conv)
  have len: "length ex = 5" and ne: "ex \<noteq> []"
    by (simp_all add: ex_def)
  have "aggregate_fitness ar ex = Some m"
    unfolding aggregate_fitness_def Let_def m_def [symmetric] sd_def [symmetric] kept
    using sd_pos by (simp add: len np_mean_def ne m_def)
  then show "aggregate_fitness ar [10, 11, 9, 10, 200] = Some (fl_mean ar [10, 11, 9, 10, 200])"
    by (simp only: ex_def m_def)
  from am show "\<bar>fl_mean ar [10, 11, 9, 10, 200] - 48\<bar> \<le> 1 / 1000"
    by (simp only: ex_def m_def)
qed

lemma exact_accurate: "accurate_on exact_arithmetic xs"
  by (simp add: accurate_on_def exact_arithmetic_def list_all_iff)

lemma example_scores_aggregate: "aggregate_scores [10, 11, 9, 10, 200] = Some 48"
  using example_scores_all_kept(1) [OF exact_accurate]
  by (simp add: aggregate_scores_def) (simp add: exact_arithmetic_def example_scores_mean)

lemma example_scores_run:
  "run_trials (\<lambda>trial a. Inr ([10, 11, 9, 10, 200] ! trial, a)) agent [0..<5] [] =
     Inr ([10, 11, 9, 10, 200], agent\<lparr>previous_y := None\<rparr>)"
proof -
  have "[0..<5] = [0, 1, 2, 3, 4]"
    by (simp add: upt_rec)
  then show ?thesis by simp
qed

lemma example_compute_fitness:
  assumes "accurate_on ar [10, 11, 9, 10, 200]"
  shows "compute_fitness ar (\<lambda>trial a. Inr ([10, 11, 9, 10, 200] ! trial, a)) agent 5 =
     Inr (Some (fl_mean ar [10, 11, 9, 10, 200]), agent\<lparr>previous_y := None\<rparr>)"
  by (simp add: compute_fitness_def example_scores_run example_scores_all_kept(1) [OF assms])

text \<open>
  A score on the boundary. In the scores 10, 10, 10, 10, 11 the last one lies exactly two
  standard deviations from the mean: without rounding it is kept. In doubles the mean is
  the double nearest to 10.2, the standard deviation the double nearest to 0.4, and the
  difference of 11 and that mean is exact and larger than twice that deviation: the
  score is discarded, and the result is the mean of the four scores 10.
\<close>

lemma boundary_score_kept_exactly: "aggregate_scores [10, 10, 10, 10, 11] = Some (51 / 5)"
proof -
  define ex :: "real list" where "ex = [10, 10, 10, 10, 11]"
  have len: "length ex = 5" and ne: "ex \<noteq> []"
    by (simp_all add: ex_def)
  have m: "mean ex = 51 / 5"
    by (simp add: ex_def mean_def)
  have "np_std ex = sqrt (4 / 25)"
    by (simp add: np_std_def m) (simp add: ex_def mean_def power2_eq_square)
  moreover have "sqrt (4 / 25) = 2 / 5"
    by (rule real_sqrt_unique) (simp_all add: power2_eq_square)
  ultimately have sd: "np_std ex = 2 / 5"
    by simp
  have kept: "filter (\<lambda>x. \<bar>x - mean ex\<bar> \<le> 2 * np_std ex) ex = ex"
    unfolding m sd by (simp add: ex_def)
  have "aggregate_scores ex = Some (51 / 5)"
    by (simp only: aggregate_scores_exact kept) (simp add: len ne m sd)
  then show ?thesis by (simp only: ex_def)
qed

lemma boundary_score_dropped_by_rounding:
  assumes "fl_mean ar [10, 10, 10, 10, 11] = 2871044762448691 / 281474976710656"
    and "fl_std ar [10, 10, 10, 10, 11] = 3602879701896397 / 9007199254740992"
    and "fl_sub ar = (-)"
  shows "aggregate_fitness ar [10, 10, 10, 10, 11] = Some (fl_mean ar [10, 10, 10, 10])"
  by (simp add: aggregate_fitness_def Let_def np_mean_def assms)


text \<open>
  C2 (as amended). Take any arithmetic whose standard deviation is never negative. When
  no episode raises, \<open>compute_fitness\<close> collects one score per trial and returns what the
  rule of the specification gives for them on the numbers as computed: the mean, the
  standard deviation and the distances are the doubles numpy computes, so that a score
  on the boundary of two standard deviations is kept or discarded as rounding has it
  (\<open>nan\<close>, here \<open>None\<close>, when there is no trial at all). For the scores 10, 11, 9, 10, 200
  of five trials, in any arithmetic off by at most a thousandth, no score is discarded
  and the result is the computed mean of all five, which is 48 up to that error: the
  standard deviation is the square root of 5776.4, above 76.002, and 200 is at distance
  152 from the mean.
\<close>

theorem compute_fitness_follows_rule:
  assumes "\<forall>xs. 0 \<le> fl_std ar xs"
    and "\<forall>t<num_trials. \<forall>a. \<exists>sc a'. mains t a = Inr (sc, a')"
  shows "(\<exists>scores agent'.
            run_trials mains agent [0..<num_trials] [] = Inr (scores, agent') \<and>
            length scores = num_trials \<and>
            compute_fitness ar mains agent num_trials =
              Inr (if num_trials = 0 then None
                   else Some (spec_evaluate ar num_trials scores), agent')) \<and>
         (accurate_on ar [10, 11, 9, 10, 200] \<longrightarrow>
            compute_fitness ar (\<lambda>trial a. Inr ([10, 11, 9, 10, 200] ! trial, a)) agent 5 =
              Inr (Some (fl_mean ar [10, 11, 9, 10, 200]), agent\<lparr>previous_y := None\<rparr>) \<and>
            \<bar>fl_mean ar [10, 11, 9, 10, 200] - 48\<bar> \<le> 1 / 1000)"
proof (intro conjI impI)
  from assms(2) have "\<forall>t\<in>set [0..<num_trials]. \<forall>a. \<exists>sc a'. mains t a = Inr (sc, a')"
    by simp
  from run_trials_returns [OF this, of agent "[]"]
  obtain scores agent' where
    run: "run_trials mains agent [0..<num_trials] [] = Inr (scores, agent')" and
    len: "length scores = num_trials"
    by auto
  from assms(1) have "0 \<le> fl_std ar scores"
    by blast
  from aggregate_spec [OF this] len have "aggregate_fitness ar scores =
      (if num_trials = 0 then None else Some (spec_evaluate ar num_trials scores))"
    by auto
  then have "compute_fitness ar mains agent num_trials =
               Inr (if num_trials = 0 then None
                    else Some (spec_evaluate ar num_trials scores), agent')"
    by (simp add: compute_fitness_def run)
  with run len show "\<exists>scores agent'.
            run_trials mains agent [0..<num_trials] [] = Inr (scores, agent') \<and>
            length scores = num_trials \<and>
            compute_fitness ar mains agent num_trials =
              Inr (if num_trials = 0 then None
                   else Some (spec_evaluate ar num_trials scores), agent')"
    by blast
next
  assume "accurate_on ar [10, 11, 9, 10, 200]"
  then show "compute_fitness ar (\<lambda>trial a. Inr ([10, 11, 9, 10, 200] ! trial, a)) agent 5 =
           Inr (Some (fl_mean ar [10, 11, 9, 10, 200]), agent\<lparr>previous_y := None\<rparr>)"
    by (rule example_compute_fitness)
next
  assume "accurate_on ar [10, 11, 9, 10, 200]"
  then show "\<bar>fl_mean ar [10, 11, 9, 10, 200] - 48\<bar> \<le> 1 / 1000"
    by (rule example_scores_all_kept(2))
qed

theorem compute_fitness_follows_rule_witness:
  "accurate_on exact_arithmetic [10, 11, 9, 10, 200] \<and>
   (\<exists>scores agent'.
      run_trials (\<lambda>trial a. Inr ([10, 11, 9, 10, 200] ! trial, a))
        \<lparr>num_features = 6, hidden_size = 8, genotype = [], fit_score = 0, fit_rel = 0,
         previous_y = Some 1\<rparr> [0..<5] [] = Inr (scores, agent') \<and>
      length scores = 5 \<and>
      compute_fitness exact_arithmetic (\<lambda>trial a. Inr ([10, 11, 9, 10, 200] ! trial, a))
        \<lparr>num_features = 6, hidden_size = 8, genotype = [], fit_score = 0, fit_rel = 0,
         previous_y = Some 1\<rparr> 5 =
        Inr (Some (spec_evaluate exact_arithmetic 5 scores), agent')) \<and>
   compute_fitness exact_arithmetic (\<lambda>trial a. Inr ([10, 11, 9, 10, 200] ! trial, a))
     \<lparr>num_features = 6, hidden_size = 8, genotype = [], fit_score = 0, fit_rel = 0,
      previous_y = Some 1\<rparr> 5 =
     Inr (Some 48,
          \<lparr>num_features = 6, hidden_size = 8, genotype = [], fit_score = 0, fit_rel = 0,
           previous_y = None\<rparr>)"
proof -
  let ?env = "\<lambda>trial a. Inr ([10, 11, 9, 10, 200 :: real] ! trial, a :: controller)
                :: error + (real \<times> controller)"
  let ?a = "\<lparr>num_features = 6, hidden_size = 8, genotype = [], fit_score = 0, fit_rel = 0,
         previous_y = Some 1\<rparr>"
  have h0: "\<forall>xs. 0 \<le> fl_std exact_arithmetic xs"
    by (simp add: exact_arithmetic_def np_std_nonneg)
  have h1: "\<forall>t<5. \<forall>a. \<exists>sc a'. ?env t a = Inr (sc, a')"
    by simp
  have h2: "accurate_on exact_arithmetic [10, 11, 9, 10, 200]"
    by (rule exact_accurate)
  note inst = compute_fitness_follows_rule [OF h0 h1, of ?a]
  from inst have "\<exists>scores agent'.
      run_trials ?env ?a [0..<5] [] = Inr (scores, agent') \<and>
      length scores = 5 \<and>
      compute_fitness exact_arithmetic ?env ?a 5 =
        Inr (if (5::nat) = 0 then None
             else Some (spec_evaluate exact_arithmetic 5 scores), agent')"
    by (rule conjunct1)
  then have general: "\<exists>scores agent'.
      run_trials ?env ?a [0..<5] [] = Inr (scores, agent') \<and>
      length scores = 5 \<and>
      compute_fitness exact_arithmetic ?env ?a 5 =
        Inr (Some (spec_evaluate exact_arithmetic 5 scores), agent')"
    by (simp only: numeral_eq_iff zero_neq_numeral [symmetric] if_False
        numeral_neq_zero)
  from inst [THEN conjunct2, THEN mp, OF h2]
  have "compute_fitness exact_arithmetic ?env ?a 5 =
          Inr (Some (fl_mean exact_arithmetic [10, 11, 9, 10, 200]), ?a\<lparr>previous_y := None\<rparr>)"
    by (rule conjunct1)
  then have example: "compute_fitness exact_arithmetic ?env ?a 5 =
     Inr (Some 48,
          \<lparr>num_features = 6, hidden_size = 8, genotype = [], fit_score = 0, fit_rel = 0,
           previous_y = None\<rparr>)"
    by (simp add: exact_arithmetic_def example_scores_mean)
  from h2 general example show ?thesis
    by blast
qed

text \<open>
  C2 as stated fails in its example: on the five scores 10, 11, 9, 10, 200 the result is
  not 10, in no arithmetic that is off by at most a thousandth.
\<close>

theorem compute_fitness_example_counterexample:
  "\<not> (\<exists>ar agent'.
        accurate_on ar [10, 11, 9, 10, 200] \<and>
        compute_fitness ar (\<lambda>trial a. Inr ([10, 11, 9, 10, 200] ! trial, a))
          \<lparr>num_features = 6, hidden_size = 8, genotype = [], fit_score = 0, fit_rel = 0,
           previous_y = None\<rparr> 5 = Inr (Some 10, agent'))"
proof
  assume "\<exists>ar agent'.
        accurate_on ar [10, 11, 9, 10, 200] \<and>
        compute_fitness ar (\<lambda>trial a. Inr ([10, 11, 9, 10, 200] ! trial, a))
          \<lparr>num_features = 6, hidden_size = 8, genotype = [], fit_score = 0, fit_rel = 0,
           previous_y = None\<rparr> 5 = Inr (Some 10, agent')"
  then obtain ar agent' where acc: "accurate_on ar [10, 11, 9, 10, 200]"
    and ten: "compute_fitness ar (\<lambda>trial a. Inr ([10, 11, 9, 10, 200] ! trial, a))
          \<lparr>num_features = 6, hidden_size = 8, genotype = [], fit_score = 0, fit_rel = 0,
           previous_y = None\<rparr> 5 = Inr (Some 10, agent')"
    by blast
  from ten example_compute_fitness [OF acc] have "fl_mean ar [10, 11, 9, 10, 200] = 10"
    by simp
  with example_scores_all_kept(2) [OF acc] show False
    by simp
qed




section \<open>genetic.py: inference\<close>

text \<open>
  The numpy operations of \<open>_forward_pass\<close>, with the exceptions they raise. A 2-D array is its
  shape and its rows. \<open>a.reshape(r, c)\<close> needs exactly \<open>r * c\<close> entries and fills the rows
  one after the other; \<open>np.dot\<close> of a vector and a matrix needs as many entries as rows;
  \<open>np.dot\<close> of two vectors needs equal lengths; \<open>+\<close> on two 1-D arrays broadcasts an array
  of length one.
\<close>

type_synonym matrix = "nat \<times> nat \<times> real list list"

definition reshape :: "real list \<Rightarrow> nat \<Rightarrow> nat \<Rightarrow> error + matrix" where
  "reshape a r c =
     (if length a \<noteq> r * c then Inl ValueError
      else Inr (r, c, map (\<lambda>i. take c (drop (i * c) a)) [0..<r]))"

definition dot_vec_mat :: "real list \<Rightarrow> matrix \<Rightarrow> error + real list" where
  "dot_vec_mat v M =
     (case M of (r, c, rows) \<Rightarrow>
        if length v \<noteq> r then Inl ValueError
        else Inr (map (\<lambda>j. sum_list (map2 (\<lambda>x row. x * row ! j) v rows)) [0..<c]))"

definition dot_vec_vec :: "real list \<Rightarrow> real list \<Rightarrow> error + real" where
  "dot_vec_vec a b =
     (if length a \<noteq> length b then Inl ValueError else Inr (sum_list (map2 (*) a b)))"

definition np_add :: "real list \<Rightarrow> real list \<Rightarrow> error + real list" where
  "np_add a b =
     (if length a = length b then Inr (map2 (+) a b)
      else if length a = 1 then Inr (map (\<lambda>y. a ! 0 + y) b)
      else if length b = 1 then Inr (map (\<lambda>x. x + b ! 0) a)
      else Inl ValueError)"

text \<open>
  \<open>_forward_pass\<close>. A slice \<open>a[i:j]\<close> with \<open>0 \<le> i \<le> j\<close> is \<open>drop i (take j a)\<close> and never
  raises; \<open>self.genotype[w2_end]\<close> raises \<open>IndexError\<close> past the end. The statements run in
  the order of the source.
\<close>

definition forward_pass :: "controller \<Rightarrow> real list \<Rightarrow> error + real" where
  "forward_pass self state =
     (let w1_end = num_features self * hidden_size self;
          b1_end = w1_end + hidden_size self;
          w2_end = b1_end + hidden_size self
      in case reshape (take w1_end (genotype self)) (num_features self) (hidden_size self) of
           Inl e \<Rightarrow> Inl e
         | Inr W1 \<Rightarrow>
             (let b1 = drop w1_end (take b1_end (genotype self));
                  W2 = drop b1_end (take w2_end (genotype self))
              in if \<not> w2_end < length (genotype self) then Inl IndexError
                 else (let b2 = genotype self ! w2_end
                       in case dot_vec_mat state W1 of
                            Inl e \<Rightarrow> Inl e
                          | Inr z \<Rightarrow>
                              (case np_add z b1 of
                                 Inl e \<Rightarrow> Inl e
                               | Inr pre \<Rightarrow>
                                   (let hidden = map tanh pre
                                    in case dot_vec_vec hidden W2 of
                                         Inl e \<Rightarrow> Inl e
                                       | Inr out \<Rightarrow> Inr (out + b2))))))"

text \<open>
  \<open>getMove\<close>. The raw state is the list \<open>[gap, horizontal, bird_y, bias]\<close>. The assignment to
  \<open>self.previous_y\<close> comes before the forward pass, so the controller is updated also when
  the forward pass raises: the function returns the result, or the exception, together
  with the controller it leaves behind.
\<close>

definition getMove :: "controller \<Rightarrow> real \<times> real \<times> real \<times> real \<Rightarrow> (error + bool) \<times> controller" where
  "getMove self state =
     (case state of (s0, s1, s2, s3) \<Rightarrow>
        (let velocity = (case previous_y self of Some py \<Rightarrow> s2 - py | None \<Rightarrow> 0);
             self' = self\<lparr>previous_y := Some s2\<rparr>;
             enhanced_state =
               [s0 / 256, s1 / 568, s2 / 512, velocity / 10, min (s1 / 568) 1,
                if \<bar>s0\<bar> < 50 then 1 else 0]
         in (case forward_pass self' enhanced_state of
               Inl e \<Rightarrow> Inl e
             | Inr output \<Rightarrow> Inr (output > 0),
             self')))"

text \<open>
  Observe in the words of the specification (section 4.1): the six features of a raw
  state, and the output \<open>tanh(features \<cdot> W1 + b1) \<cdot> W2 + b2\<close>, where \<open>W1\<close> (features by hidden,
  row after row), \<open>b1\<close>, \<open>W2\<close> and \<open>b2\<close> are the consecutive parts of the flat weight vector.
\<close>

definition spec_features :: "real \<times> real \<times> real \<times> real \<Rightarrow> real option \<Rightarrow> real list" where
  "spec_features rawState lastObservedY =
     (case rawState of (gapDistance, horizontalDistance, birdHeight, bias) \<Rightarrow>
        [gapDistance / 256, horizontalDistance / 568, birdHeight / 512,
         (case lastObservedY of None \<Rightarrow> 0 | Some y \<Rightarrow> birdHeight - y) / 10,
         min (horizontalDistance / 568) 1,
         if \<bar>gapDistance\<bar> < 50 then 1 else 0])"

definition spec_output :: "real list \<Rightarrow> nat \<Rightarrow> nat \<Rightarrow> real list \<Rightarrow> real" where
  "spec_output w F H x =
     (let W1 = (\<lambda>i j. w ! (i * H + j));
          b1 = (\<lambda>j. w ! (F * H + j));
          W2 = (\<lambda>j. w ! (F * H + H + j));
          b2 = w ! (F * H + H + H)
      in (\<Sum>j<H. tanh ((\<Sum>i<F. x ! i * W1 i j) + b1 j) * W2 j) + b2)"

lemma sum_list_map2_nth:
  assumes "length xs = length ys"
  shows "sum_list (map2 f xs ys) = (\<Sum>i<length xs. f (xs ! i) (ys ! i))"
proof -
  have "sum_list (map2 f xs ys) = (\<Sum>i = 0..<length (map2 f xs ys). map2 f xs ys ! i)"
    by (rule sum_list_sum_nth)
  also have "\<dots> = (\<Sum>i = 0..<length xs. f (xs ! i) (ys ! i))"
    using assms by (intro sum.cong) simp_all
  finally show ?thesis by (simp add: atLeast0LessThan)
qed

lemma reshape_rows:
  assumes "length a = r * c"
  shows "reshape a r c = Inr (r, c, map (\<lambda>i. take c (drop (i * c) a)) [0..<r])"
  using assms by (simp add: reshape_def)

lemma row_nth:
  assumes "i < r" "j < c" "r * c \<le> length a"
  shows "take c (drop (i * c) a) ! j = a ! (i * c + j)"
proof -
  have "i * c + c \<le> r * c"
    using assms(1) by (metis Suc_leI mult_Suc mult_le_mono1 add.commute)
  then show ?thesis using assms by simp
qed

lemma dot_rows:
  assumes "length v = r" "j < c" "r * c \<le> length a"
  shows "sum_list (map2 (\<lambda>x row. x * row ! j) v (map (\<lambda>i. take c (drop (i * c) a)) [0..<r]))
         = (\<Sum>i<r. v ! i * a ! (i * c + j))"
proof -
  have "sum_list (map2 (\<lambda>x row. x * row ! j) v (map (\<lambda>i. take c (drop (i * c) a)) [0..<r]))
        = (\<Sum>i<r. v ! i * (map (\<lambda>i. take c (drop (i * c) a)) [0..<r]) ! i ! j)"
    using assms(1) by (subst sum_list_map2_nth) simp_all
  also have "\<dots> = (\<Sum>i<r. v ! i * a ! (i * c + j))"
  proof (intro sum.cong refl)
    fix i assume "i \<in> {..<r}"
    then have i: "i < r" by simp
    then have "map (\<lambda>i. take c (drop (i * c) a)) [0..<r] ! i ! j = a ! (i * c + j)"
      using row_nth [OF i assms(2,3)] by simp
    then show "v ! i * map (\<lambda>i. take c (drop (i * c) a)) [0..<r] ! i ! j =
               v ! i * a ! (i * c + j)"
      by simp
  qed
  finally show ?thesis .
qed

lemma forward_pass_spec:
  assumes "total_weights (num_features self) (hidden_size self) \<le> length (genotype self)"
    and "length x = num_features self"
  shows "forward_pass self x =
           Inr (spec_output (genotype self) (num_features self) (hidden_size self) x)"
proof -
  define F where "F = num_features self"
  define H where "H = hidden_size self"
  define w where "w = genotype self"
  have len: "F * H + H + H + 1 \<le> length w"
    using assms(1) by (simp add: total_weights_def F_def H_def w_def)
  have W1: "reshape (take (F * H) w) F H =
              Inr (F, H, map (\<lambda>i. take H (drop (i * H) (take (F * H) w))) [0..<F])"
    using len by (intro reshape_rows) simp
  have z: "dot_vec_mat x (F, H, map (\<lambda>i. take H (drop (i * H) (take (F * H) w))) [0..<F]) =
             Inr (map (\<lambda>j. \<Sum>i<F. x ! i * w ! (i * H + j)) [0..<H])"
  proof -
    have "sum_list (map2 (\<lambda>x row. x * row ! j) x
             (map (\<lambda>i. take H (drop (i * H) (take (F * H) w))) [0..<F]))
          = (\<Sum>i<F. x ! i * w ! (i * H + j))" if "j < H" for j
    proof -
      have "sum_list (map2 (\<lambda>x row. x * row ! j) x
             (map (\<lambda>i. take H (drop (i * H) (take (F * H) w))) [0..<F]))
          = (\<Sum>i<F. x ! i * take (F * H) w ! (i * H + j))"
        using assms(2) that len by (intro dot_rows) (simp_all add: F_def)
      also have "\<dots> = (\<Sum>i<F. x ! i * w ! (i * H + j))"
      proof (intro sum.cong refl)
        fix i assume "i \<in> {..<F}"
        then have "i * H + H \<le> F * H"
          by (metis Suc_leI lessThan_iff mult_Suc mult_le_mono1 add.commute)
        with that have "i * H + j < F * H" by simp
        then show "x ! i * take (F * H) w ! (i * H + j) = x ! i * w ! (i * H + j)"
          by simp
      qed
      finally show ?thesis .
    qed
    then show ?thesis
      using assms(2) by (simp add: dot_vec_mat_def F_def)
  qed
  have b1: "drop (F * H) (take (F * H + H) w) = map (\<lambda>j. w ! (F * H + j)) [0..<H]"
    using len by (intro nth_equalityI) simp_all
  have W2: "drop (F * H + H) (take (F * H + H + H) w) = map (\<lambda>j. w ! (F * H + H + j)) [0..<H]"
    using len by (intro nth_equalityI) simp_all
  have pre: "np_add (map (\<lambda>j. \<Sum>i<F. x ! i * w ! (i * H + j)) [0..<H])
                (map (\<lambda>j. w ! (F * H + j)) [0..<H]) =
             Inr (map (\<lambda>j. (\<Sum>i<F. x ! i * w ! (i * H + j)) + w ! (F * H + j)) [0..<H])"
    by (simp add: np_add_def) (intro nth_equalityI, simp_all)
  have out: "dot_vec_vec
               (map (\<lambda>j. tanh ((\<Sum>i<F. x ! i * w ! (i * H + j)) + w ! (F * H + j))) [0..<H])
               (map (\<lambda>j. w ! (F * H + H + j)) [0..<H]) =
             Inr (\<Sum>j<H. tanh ((\<Sum>i<F. x ! i * w ! (i * H + j)) + w ! (F * H + j)) *
                           w ! (F * H + H + j))"
    by (simp add: dot_vec_vec_def sum_list_map2_nth)
  have idx: "F * H + H + H < length w"
    using len by simp
  show ?thesis
    unfolding forward_pass_def Let_def F_def [symmetric] H_def [symmetric] w_def [symmetric]
    by (simp add: W1 b1 W2 idx z pre out spec_output_def Let_def comp_def)
qed


lemma forward_pass_short:
  assumes "length (genotype self) < total_weights (num_features self) (hidden_size self)"
  shows "\<exists>e. forward_pass self x = Inl e"
  using assms
  by (auto simp add: forward_pass_def Let_def total_weights_def split: sum.splits)

text \<open>
  C1. For a controller of six input features whose weight vector has the expected length
  and for every raw state, \<open>getMove\<close> returns (it raises nothing) the decision
  \<open>output > 0\<close> of the specification's formula on the six features of the specification,
  and the controller it leaves differs from the one it found in \<open>previous_y\<close> only, which
  is the current bird height.
\<close>

theorem getMove_refines_observe:
  assumes "num_features c = 6"
    and "length (genotype c) = total_weights 6 (hidden_size c)"
  shows "getMove c (gapDistance, horizontalDistance, birdHeight, bias) =
           (Inr (spec_output (genotype c) 6 (hidden_size c)
                   (spec_features (gapDistance, horizontalDistance, birdHeight, bias)
                      (previous_y c)) > 0),
            c\<lparr>previous_y := Some birdHeight\<rparr>)"
proof -
  let ?c' = "c\<lparr>previous_y := Some birdHeight\<rparr>"
  let ?x = "spec_features (gapDistance, horizontalDistance, birdHeight, bias) (previous_y c)"
  have x: "[gapDistance / 256, horizontalDistance / 568, birdHeight / 512,
            (case previous_y c of Some py \<Rightarrow> birdHeight - py | None \<Rightarrow> 0) / 10,
            min (horizontalDistance / 568) 1, if \<bar>gapDistance\<bar> < 50 then 1 else 0] = ?x"
    by (simp add: spec_features_def split: option.split)
  have "total_weights (num_features ?c') (hidden_size ?c') \<le> length (genotype ?c')"
    using assms by simp
  moreover have "length ?x = num_features ?c'"
    using assms(1) by (simp add: spec_features_def)
  ultimately have "forward_pass ?c' ?x =
      Inr (spec_output (genotype ?c') (num_features ?c') (hidden_size ?c') ?x)"
    by (rule forward_pass_spec)
  then have "forward_pass ?c' ?x = Inr (spec_output (genotype c) 6 (hidden_size c) ?x)"
    using assms(1) by simp
  then show ?thesis
    unfolding getMove_def Let_def prod.case x by simp
qed

theorem getMove_refines_observe_witness:
  "num_features \<lparr>num_features = 6, hidden_size = 1, genotype = [0, 0, 0, 0, 0, 0, 0, 5, - 1],
      fit_score = 0, fit_rel = 0, previous_y = Some 250\<rparr> = 6 \<and>
   length (genotype \<lparr>num_features = 6, hidden_size = 1,
      genotype = [0, 0, 0, 0, 0, 0, 0, 5, - 1],
      fit_score = 0, fit_rel = 0, previous_y = Some 250\<rparr>) = total_weights 6 1 \<and>
   getMove \<lparr>num_features = 6, hidden_size = 1, genotype = [0, 0, 0, 0, 0, 0, 0, 5, - 1],
      fit_score = 0, fit_rel = 0, previous_y = Some 250\<rparr> (30, 180, 240, 1) =
     (Inr False,
      \<lparr>num_features = 6, hidden_size = 1, genotype = [0, 0, 0, 0, 0, 0, 0, 5, - 1],
       fit_score = 0, fit_rel = 0, previous_y = Some 240\<rparr>)"
proof -
  let ?c = "\<lparr>num_features = 6, hidden_size = 1, genotype = [0, 0, 0, 0, 0, 0, 0, 5, - 1 :: real],
      fit_score = 0, fit_rel = 0, previous_y = Some 250\<rparr>"
  have h1: "num_features ?c = 6" by simp
  have h2: "length (genotype ?c) = total_weights 6 (hidden_size ?c)"
    by (simp add: total_weights_def)
  have out: "spec_output [0, 0, 0, 0, 0, 0, 0, 5, - 1] 6 (Suc 0) x = - 1" for x
    by (simp add: spec_output_def Let_def eval_nat_numeral)
  from getMove_refines_observe [OF h1 h2, of 30 180 240 1] h1 h2 show ?thesis
    by (simp add: out)
qed


section \<open>Construction from a given weight vector\<close>

text \<open>
  C4 (as amended). The constructor compares the length of a supplied weight vector with
  nothing: \<open>total_weights\<close> is only used to size a random initialization. Without mutation
  every supplied vector, of any length, is stored as it is; with mutation (and a noise
  scale that is not negative) a vector of the same length is stored; construction
  returns in both cases. A length that does not fit the architecture shows later or
  never: with fewer weights than the architecture calls for every forward pass raises,
  and with more the forward pass runs as on the leading ones.
\<close>

theorem init_accepts_any_length:
  "Genetic_AI (Some g) F H False noise_sd rnd =
     Inr \<lparr>num_features = F, hidden_size = H, genotype = g,
          fit_score = 0, fit_rel = 0, previous_y = None\<rparr> \<and>
   (0 \<le> noise_sd \<longrightarrow>
      (\<exists>c. Genetic_AI (Some g) F H True noise_sd rnd = Inr c \<and>
           length (genotype c) = length g)) \<and>
   (length g < total_weights F H \<longrightarrow>
      (\<exists>e. forward_pass \<lparr>num_features = F, hidden_size = H, genotype = g,
                         fit_score = 0, fit_rel = 0, previous_y = py\<rparr> x = Inl e)) \<and>
   (total_weights F H \<le> length g \<and> length x = F \<longrightarrow>
      forward_pass \<lparr>num_features = F, hidden_size = H, genotype = g,
                    fit_score = 0, fit_rel = 0, previous_y = py\<rparr> x =
        Inr (spec_output g F H x))"
proof (intro conjI impI)
  show "Genetic_AI (Some g) F H False noise_sd rnd =
     Inr \<lparr>num_features = F, hidden_size = H, genotype = g,
          fit_score = 0, fit_rel = 0, previous_y = None\<rparr>"
    by (rule Genetic_AI_unmutated)
next
  assume "0 \<le> noise_sd"
  then show "\<exists>c. Genetic_AI (Some g) F H True noise_sd rnd = Inr c \<and>
           length (genotype c) = length g"
    by (simp add: Genetic_AI_def init_genotype_mutate np_clip_def)
next
  let ?c = "\<lparr>num_features = F, hidden_size = H, genotype = g,
             fit_score = 0, fit_rel = 0, previous_y = py\<rparr>"
  assume "length g < total_weights F H"
  then have "length (genotype ?c) < total_weights (num_features ?c) (hidden_size ?c)"
    by simp
  then show "\<exists>e. forward_pass ?c x = Inl e"
    by (rule forward_pass_short)
next
  let ?c = "\<lparr>num_features = F, hidden_size = H, genotype = g,
             fit_score = 0, fit_rel = 0, previous_y = py\<rparr>"
  assume a: "total_weights F H \<le> length g \<and> length x = F"
  then have "total_weights (num_features ?c) (hidden_size ?c) \<le> length (genotype ?c)"
    and "length x = num_features ?c"
    by simp_all
  then have "forward_pass ?c x =
      Inr (spec_output (genotype ?c) (num_features ?c) (hidden_size ?c) x)"
    by (rule forward_pass_spec)
  then show "forward_pass ?c x = Inr (spec_output g F H x)"
    by simp
qed

theorem init_accepts_any_length_witness:
  "(0::real) \<le> 1 / 10 \<and>
   (\<exists>c. Genetic_AI (Some [1, 2, 3]) 6 8 True (1 / 10) (\<lambda>i. 0) = Inr c \<and>
        length (genotype c) = length [1, 2, 3 :: real]) \<and>
   length [1, 2, 3 :: real] < total_weights 6 8 \<and>
   (\<exists>e. forward_pass \<lparr>num_features = 6, hidden_size = 8, genotype = [1, 2, 3],
                      fit_score = 0, fit_rel = 0, previous_y = None\<rparr>
           [0, 0, 0, 0, 0, 0] = Inl e) \<and>
   total_weights 6 8 \<le> length (replicate 66 (0::real)) \<and>
   length [0, 0, 0, 0, 0, 0 :: real] = 6 \<and>
   forward_pass \<lparr>num_features = 6, hidden_size = 8, genotype = replicate 66 0,
                 fit_score = 0, fit_rel = 0, previous_y = None\<rparr> [0, 0, 0, 0, 0, 0] =
     Inr (spec_output (replicate 66 0) 6 8 [0, 0, 0, 0, 0, 0])"
proof -
  have h1: "(0::real) \<le> 1 / 10" by simp
  have h2: "length [1, 2, 3 :: real] < total_weights 6 8"
    by (simp add: total_weights_def)
  have h3: "total_weights 6 8 \<le> length (replicate 66 (0::real)) \<and>
            length [0, 0, 0, 0, 0, 0 :: real] = 6"
    by (simp add: total_weights_def)
  note short = init_accepts_any_length
    [where g = "[1, 2, 3]" and F = 6 and H = 8 and noise_sd = "1 / 10" and rnd = "\<lambda>i. 0"
       and py = None and x = "[0, 0, 0, 0, 0, 0]"]
  note long = init_accepts_any_length
    [where g = "replicate 66 0" and F = 6 and H = 8 and noise_sd = "1 / 10"
       and rnd = "\<lambda>i. 0" and py = None and x = "[0, 0, 0, 0, 0, 0]"]
  note p2 = short [THEN conjunct2, THEN conjunct1, THEN mp, OF h1]
  note p3 = short [THEN conjunct2, THEN conjunct2, THEN conjunct1, THEN mp, OF h2]
  note p4 = long [THEN conjunct2, THEN conjunct2, THEN conjunct2, THEN mp, OF h3]
  from h1 p2 h2 p3 h3 p4 show ?thesis
    by blast
qed

text \<open>
  C4 as stated fails: a vector of three weights is accepted for the default architecture,
  which calls for 65.
\<close>

theorem init_length_mismatch_counterexample:
  "length [1, 2, 3 :: real] \<noteq> total_weights 6 8 \<and>
   Genetic_AI (Some [1, 2, 3]) 6 8 False (1 / 10) (\<lambda>i. 0) =
     Inr \<lparr>num_features = 6, hidden_size = 8, genotype = [1, 2, 3],
          fit_score = 0, fit_rel = 0, previous_y = None\<rparr>"
  by (simp add: Genetic_AI_def init_genotype_def total_weights_def)

section \<open>genetic_controller.py: tournament selection\<close>

text \<open>
  The controllers of a pool are distinct objects, each built by its own constructor call:
  an object of the pool is known by its position in the pool, and \<open>parent1 is parent2\<close> is
  equality of positions. Selection returns positions.

  \<open>random.sample(population, k)\<close> raises \<open>ValueError\<close> when \<open>k\<close> exceeds the population and
  otherwise returns \<open>k\<close> members at distinct positions, in the order drawn: each raw draw
  picks one of the positions that are left. Every sequence of \<open>k\<close> distinct positions is
  the image of some draws; how likely each one is lies with the library and is not
  modelled.
\<close>

fun sample_positions :: "nat list \<Rightarrow> nat \<Rightarrow> (nat \<Rightarrow> nat) \<Rightarrow> nat list" where
  "sample_positions remaining 0 r = []"
| "sample_positions remaining (Suc k) r =
     (if remaining = [] then []
      else (let j = r 0 mod length remaining
            in remaining ! j #
               sample_positions (take j remaining @ drop (Suc j) remaining) k (\<lambda>i. r (Suc i))))"

definition random_sample :: "'a list \<Rightarrow> nat \<Rightarrow> (nat \<Rightarrow> nat) \<Rightarrow> error + nat list" where
  "random_sample population k r =
     (if k > length population then Inl ValueError
      else Inr (sample_positions [0..<length population] k r))"

text \<open>
  \<open>max(xs, key=...)\<close> raises \<open>ValueError\<close> on an empty sequence and returns the first item
  of greatest key.
\<close>

fun max_from :: "('a \<Rightarrow> real) \<Rightarrow> 'a \<Rightarrow> 'a list \<Rightarrow> 'a" where
  "max_from key best [] = best"
| "max_from key best (x # xs) = max_from key (if key x > key best then x else best) xs"

definition py_max :: "('a \<Rightarrow> real) \<Rightarrow> 'a list \<Rightarrow> error + 'a" where
  "py_max key xs = (case xs of [] \<Rightarrow> Inl ValueError | x # rest \<Rightarrow> Inr (max_from key x rest))"

definition tournament_selection :: "controller list \<Rightarrow> nat \<Rightarrow> (nat \<Rightarrow> nat) \<Rightarrow> error + nat" where
  "tournament_selection population tournament_size r =
     (case random_sample population (min tournament_size (length population)) r of
        Inl e \<Rightarrow> Inl e
      | Inr tournament \<Rightarrow> py_max (\<lambda>p. fit_score (population ! p)) tournament)"

text \<open>
  The loop \<open>while parent1 is parent2 and len(parents) > 1\<close>, each iteration consuming the
  draws of one more tournament. The loop is not bounded in the source: \<open>None\<close> says that it
  is still running when the supplied draws are used up.
\<close>

fun retry_second ::
  "controller list \<Rightarrow> nat \<Rightarrow> nat \<Rightarrow> (nat \<Rightarrow> nat) list \<Rightarrow> (error + nat) option" where
  "retry_second parents parent1 parent2 [] =
     (if parent1 = parent2 \<and> length parents > 1 then None else Some (Inr parent2))"
| "retry_second parents parent1 parent2 (r # rs) =
     (if parent1 = parent2 \<and> length parents > 1
      then (case tournament_selection parents 3 r of
              Inl e \<Rightarrow> Some (Inl e)
            | Inr p \<Rightarrow> retry_second parents parent1 p rs)
      else Some (Inr parent2))"

text \<open>Lines 128 to 133: the two parents of one offspring, with the draws they consume.\<close>

record selection_draws =
  first_draw :: "nat \<Rightarrow> nat"
  second_draw :: "nat \<Rightarrow> nat"
  retry_draws :: "(nat \<Rightarrow> nat) list"

definition select_parents :: "controller list \<Rightarrow> selection_draws \<Rightarrow> (error + nat \<times> nat) option" where
  "select_parents parents d =
     (case tournament_selection parents 3 (first_draw d) of
        Inl e \<Rightarrow> Some (Inl e)
      | Inr parent1 \<Rightarrow>
          (case tournament_selection parents 3 (second_draw d) of
             Inl e \<Rightarrow> Some (Inl e)
           | Inr parent2 \<Rightarrow>
               (case retry_second parents parent1 parent2 (retry_draws d) of
                  None \<Rightarrow> None
                | Some (Inl e) \<Rightarrow> Some (Inl e)
                | Some (Inr p2) \<Rightarrow> Some (Inr (parent1, p2)))))"

lemma remove_nth_set: "set (take j xs @ drop (Suc j) xs) \<subseteq> set xs"
  by (auto dest: in_set_takeD in_set_dropD)

lemma remove_nth_distinct:
  assumes "distinct xs" "j < length xs"
  shows "distinct (take j xs @ drop (Suc j) xs) \<and> xs ! j \<notin> set (take j xs @ drop (Suc j) xs)"
proof -
  have "xs = take j xs @ xs ! j # drop (Suc j) xs"
    using assms(2) by (simp add: id_take_nth_drop)
  with assms(1) have "distinct (take j xs @ xs ! j # drop (Suc j) xs)"
    by simp
  then show ?thesis by auto
qed

lemma sample_positions_length:
  "length (sample_positions rem k r) = min k (length rem)"
proof (induction k arbitrary: rem r)
  case 0
  then show ?case by simp
next
  case (Suc k)
  show ?case
  proof (cases "rem = []")
    case True
    then show ?thesis by simp
  next
    case False
    let ?j = "r 0 mod length rem"
    have j: "?j < length rem" using False by simp
    then have rest: "length (take ?j rem @ drop (Suc ?j) rem) = length rem - 1"
      by auto
    have "0 < length rem" using False by simp
    then have "Suc (min k (length rem - 1)) = min (Suc k) (length rem)"
      by arith
    moreover have "length (sample_positions rem (Suc k) r) = Suc (min k (length rem - 1))"
    proof -
      have "sample_positions rem (Suc k) r =
              rem ! ?j # sample_positions (take ?j rem @ drop (Suc ?j) rem) k (\<lambda>i. r (Suc i))"
        using False by (simp add: Let_def)
      then have "length (sample_positions rem (Suc k) r) =
              Suc (length (sample_positions (take ?j rem @ drop (Suc ?j) rem) k (\<lambda>i. r (Suc i))))"
        by simp
      also have "\<dots> = Suc (min k (length (take ?j rem @ drop (Suc ?j) rem)))"
        by (simp only: Suc.IH)
      finally show ?thesis by (simp only: rest)
    qed
    ultimately show ?thesis by simp
  qed
qed

lemma sample_positions_set:
  "set (sample_positions rem k r) \<subseteq> set rem"
proof (induction k arbitrary: rem r)
  case 0
  then show ?case by simp
next
  case (Suc k)
  show ?case
  proof (cases "rem = []")
    case True
    then show ?thesis by simp
  next
    case False
    let ?j = "r 0 mod length rem"
    have j: "?j < length rem" using False by simp
    have "set (sample_positions (take ?j rem @ drop (Suc ?j) rem) k (\<lambda>i. r (Suc i)))
            \<subseteq> set rem"
      using Suc.IH remove_nth_set by (rule subset_trans)
    then show ?thesis
      using False j by (simp add: Let_def)
  qed
qed

lemma sample_positions_distinct:
  "distinct rem \<Longrightarrow> distinct (sample_positions rem k r)"
proof (induction k arbitrary: rem r)
  case 0
  then show ?case by simp
next
  case (Suc k)
  show ?case
  proof (cases "rem = []")
    case True
    then show ?thesis by simp
  next
    case False
    let ?j = "r 0 mod length rem"
    let ?rest = "take ?j rem @ drop (Suc ?j) rem"
    have j: "?j < length rem" using False by simp
    from remove_nth_distinct [OF Suc.prems j]
    have d: "distinct ?rest" and notin: "rem ! ?j \<notin> set ?rest" by simp_all
    have "rem ! ?j \<notin> set (sample_positions ?rest k (\<lambda>i. r (Suc i)))"
      using notin sample_positions_set by blast
    then show ?thesis
      using False Suc.IH [OF d] by (simp add: Let_def)
  qed
qed

lemma max_from_in: "max_from key best xs \<in> set (best # xs)"
  by (induction xs arbitrary: best) auto

lemma max_from_ge_best: "key best \<le> key (max_from key best xs)"
proof (induction xs arbitrary: best)
  case Nil
  then show ?case by simp
next
  case (Cons x xs)
  have "key best \<le> key (if key x > key best then x else best)" by simp
  also have "\<dots> \<le> key (max_from key (if key x > key best then x else best) xs)"
    by (rule Cons.IH)
  finally show ?case by simp
qed

lemma max_from_ge: "y \<in> set (best # xs) \<Longrightarrow> key y \<le> key (max_from key best xs)"
proof (induction xs arbitrary: best)
  case Nil
  then show ?case by simp
next
  case (Cons x xs)
  let ?b = "if key x > key best then x else best"
  from Cons.prems consider "y = best" | "y = x" | "y \<in> set xs" by auto
  then show ?case
  proof cases
    case 1
    have "key best \<le> key ?b" by simp
    also have "\<dots> \<le> key (max_from key ?b xs)" by (rule max_from_ge_best)
    finally show ?thesis using 1 by simp
  next
    case 2
    have "key x \<le> key ?b" by simp
    also have "\<dots> \<le> key (max_from key ?b xs)" by (rule max_from_ge_best)
    finally show ?thesis using 2 by simp
  next
    case 3
    then have "y \<in> set (?b # xs)" by simp
    from Cons.IH [OF this] show ?thesis by simp
  qed
qed

lemma tournament_sample:
  assumes "population \<noteq> []" and "0 < tournament_size"
  shows "\<exists>tournament w.
           random_sample population (min tournament_size (length population)) r = Inr tournament \<and>
           length tournament = min tournament_size (length population) \<and>
           distinct tournament \<and>
           (\<forall>p\<in>set tournament. p < length population) \<and>
           tournament_selection population tournament_size r = Inr w \<and>
           w \<in> set tournament \<and>
           (\<forall>p\<in>set tournament. fit_score (population ! p) \<le> fit_score (population ! w))"
proof -
  let ?k = "min tournament_size (length population)"
  let ?t = "sample_positions [0..<length population] ?k r"
  have run: "random_sample population ?k r = Inr ?t"
    by (simp add: random_sample_def)
  have len: "length ?t = ?k"
    by (simp add: sample_positions_length)
  have dist: "distinct ?t"
    by (rule sample_positions_distinct) simp
  have range: "\<forall>p\<in>set ?t. p < length population"
    using sample_positions_set [of "[0..<length population]" ?k r] by auto
  from assms len have "?t \<noteq> []"
    by (cases population) auto
  then obtain x rest where t: "?t = x # rest"
    by (cases ?t) auto
  let ?w = "max_from (\<lambda>p. fit_score (population ! p)) x rest"
  have win: "tournament_selection population tournament_size r = Inr ?w"
    by (simp add: tournament_selection_def run py_max_def t)
  have "?w \<in> set ?t"
    unfolding t by (rule max_from_in)
  moreover have "\<forall>p\<in>set ?t. fit_score (population ! p) \<le> fit_score (population ! ?w)"
    unfolding t using max_from_ge [of _ x rest "\<lambda>p. fit_score (population ! p)"] by blast
  ultimately show ?thesis
    using run len dist range win by blast
qed


lemma tournament_returns:
  assumes "population \<noteq> []"
  shows "\<exists>w. tournament_selection population 3 r = Inr w \<and> w < length population"
proof -
  have "(0::nat) < 3" by simp
  from tournament_sample [OF assms this, of r] show ?thesis by blast
qed

lemma retry_second_cases:
  assumes "parents \<noteq> []"
  shows "case retry_second parents pa pb rs of
           None \<Rightarrow>
             1 < length parents \<and> pb = pa \<and>
             (\<forall>r\<in>set rs. tournament_selection parents 3 r = Inr pa)
         | Some (Inl e) \<Rightarrow> False
         | Some (Inr q) \<Rightarrow>
             (1 < length parents \<longrightarrow> q \<noteq> pa) \<and>
             (\<exists>n\<le>length rs.
                (Inr pb # map (tournament_selection parents 3) rs) ! n = Inr q \<and>
                (\<forall>m<n. (Inr pb # map (tournament_selection parents 3) rs) ! m = Inr pa))"
proof (induction rs arbitrary: pb)
  case Nil
  then show ?case by auto
next
  case (Cons r rs)
  show ?case
  proof (cases "pa = pb \<and> length parents > 1")
    case False
    then have "retry_second parents pa pb (r # rs) = Some (Inr pb)"
      by auto
    moreover have "\<exists>n\<le>length (r # rs).
        (Inr pb # map (tournament_selection parents 3) (r # rs)) ! n = Inr pb \<and>
        (\<forall>m<n. (Inr pb # map (tournament_selection parents 3) (r # rs)) ! m = Inr pa)"
      by (rule exI [of _ 0]) simp
    ultimately show ?thesis using False by auto
  next
    case True
    from tournament_returns [OF assms, of r] obtain w
      where w: "tournament_selection parents 3 r = Inr w" by blast
    have step: "retry_second parents pa pb (r # rs) = retry_second parents pa w rs"
      using True by (simp add: w)
    show ?thesis
    proof (cases "retry_second parents pa w rs")
      case None
      with Cons.IH [of w] have "w = pa"
        and "\<forall>r\<in>set rs. tournament_selection parents 3 r = Inr pa"
        by simp_all
      then show ?thesis unfolding step using True None w by simp
    next
      case (Some res)
      show ?thesis
      proof (cases res)
        case (Inl e)
        with Some Cons.IH [of w] show ?thesis by simp
      next
        case (Inr q)
        with Some Cons.IH [of w] obtain n where
          neq: "1 < length parents \<longrightarrow> q \<noteq> pa" and n: "n \<le> length rs" and
          at: "(Inr w # map (tournament_selection parents 3) rs) ! n = Inr q" and
          before: "\<forall>m<n. (Inr w # map (tournament_selection parents 3) rs) ! m = Inr pa"
          by auto
        let ?ws = "Inr pb # map (tournament_selection parents 3) (r # rs)"
        have "?ws ! Suc n = Inr q"
          using at by (simp add: w)
        moreover have "\<forall>m<Suc n. ?ws ! m = Inr pa"
        proof (intro allI impI)
          fix m assume m: "m < Suc n"
          show "?ws ! m = Inr pa"
          proof (cases m)
            case 0
            then show ?thesis using True by simp
          next
            case (Suc m')
            with m before have "(Inr w # map (tournament_selection parents 3) rs) ! m' = Inr pa"
              by simp
            then show ?thesis using Suc by (simp add: w)
          qed
        qed
        moreover have "Suc n \<le> length (r # rs)"
          using n by simp
        ultimately have "\<exists>k\<le>length (r # rs). ?ws ! k = Inr q \<and> (\<forall>m<k. ?ws ! m = Inr pa)"
          by blast
        then show ?thesis
          unfolding step using neq Some Inr by simp
      qed
    qed
  qed
qed

text \<open>A tournament of size 0 and a tournament on an empty pool end in \<open>max\<close> of nothing.\<close>

lemma tournament_size_zero_raises:
  "tournament_selection population 0 r = Inl ValueError"
  by (simp add: tournament_selection_def random_sample_def py_max_def)

lemma tournament_empty_pool_raises:
  "tournament_selection [] tournament_size r = Inl ValueError"
  by (simp add: tournament_selection_def random_sample_def py_max_def)

text \<open>
  C7. For a pool that is not empty and a tournament size of at least 1 (size 0 makes
  \<open>max\<close> raise), tournament selection samples \<open>min(tournament_size, |pool|)\<close> members at
  distinct positions and returns one of them whose fitness is greatest among the sample.
  For the second parent the draw is repeated while the winner is the first parent and
  the pool has more than one member: selection never raises; when it returns, the
  second parent is the winner of the first of the second parent's draws whose winner
  differs from the first parent (of the very first draw in a pool of one), and differs
  from the first parent when the pool has more than one member; and it is still running
  after the supplied draws exactly when every one of them was won by the first parent.
\<close>

theorem tournament_selection_and_retry:
  assumes "population \<noteq> []" and "0 < tournament_size"
  shows "(\<exists>tournament w.
            random_sample population (min tournament_size (length population)) r = Inr tournament \<and>
            length tournament = min tournament_size (length population) \<and>
            distinct tournament \<and>
            (\<forall>p\<in>set tournament. p < length population) \<and>
            tournament_selection population tournament_size r = Inr w \<and>
            w \<in> set tournament \<and>
            (\<forall>p\<in>set tournament. fit_score (population ! p) \<le> fit_score (population ! w))) \<and>
         (case select_parents population d of
            None \<Rightarrow>
              1 < length population \<and>
              (\<forall>r\<in>set (second_draw d # retry_draws d).
                 tournament_selection population 3 r =
                 tournament_selection population 3 (first_draw d))
          | Some (Inl e) \<Rightarrow> False
          | Some (Inr (parent1, parent2)) \<Rightarrow>
              tournament_selection population 3 (first_draw d) = Inr parent1 \<and>
              (1 < length population \<longrightarrow> parent2 \<noteq> parent1) \<and>
              (\<exists>n\<le>length (retry_draws d).
                 tournament_selection population 3 ((second_draw d # retry_draws d) ! n) =
                   Inr parent2 \<and>
                 (\<forall>m<n. tournament_selection population 3
                           ((second_draw d # retry_draws d) ! m) = Inr parent1)))"
proof
  show "\<exists>tournament w.
            random_sample population (min tournament_size (length population)) r = Inr tournament \<and>
            length tournament = min tournament_size (length population) \<and>
            distinct tournament \<and>
            (\<forall>p\<in>set tournament. p < length population) \<and>
            tournament_selection population tournament_size r = Inr w \<and>
            w \<in> set tournament \<and>
            (\<forall>p\<in>set tournament. fit_score (population ! p) \<le> fit_score (population ! w))"
    using assms by (rule tournament_sample)
next
  from tournament_returns [OF assms(1), of "first_draw d"] obtain p1
    where p1: "tournament_selection population 3 (first_draw d) = Inr p1" by blast
  from tournament_returns [OF assms(1), of "second_draw d"] obtain p2
    where p2: "tournament_selection population 3 (second_draw d) = Inr p2" by blast
  let ?ds = "second_draw d # retry_draws d"
  have ws: "Inr p2 # map (tournament_selection population 3) (retry_draws d) =
            map (tournament_selection population 3) ?ds"
    by (simp add: p2)
  have nth: "(Inr p2 # map (tournament_selection population 3) (retry_draws d)) ! n =
             tournament_selection population 3 (?ds ! n)" if "n \<le> length (retry_draws d)" for n
    using that unfolding ws by (intro nth_map) simp
  have sel: "select_parents population d =
          (case retry_second population p1 p2 (retry_draws d) of
             None \<Rightarrow> None
           | Some (Inl e) \<Rightarrow> Some (Inl e)
           | Some (Inr q) \<Rightarrow> Some (Inr (p1, q)))"
    by (simp add: select_parents_def p1 p2)
  note rc = retry_second_cases [OF assms(1), where pa = p1 and pb = p2 and rs = "retry_draws d"]
  show "case select_parents population d of
            None \<Rightarrow>
              1 < length population \<and>
              (\<forall>r\<in>set (second_draw d # retry_draws d).
                 tournament_selection population 3 r =
                 tournament_selection population 3 (first_draw d))
          | Some (Inl e) \<Rightarrow> False
          | Some (Inr (parent1, parent2)) \<Rightarrow>
              tournament_selection population 3 (first_draw d) = Inr parent1 \<and>
              (1 < length population \<longrightarrow> parent2 \<noteq> parent1) \<and>
              (\<exists>n\<le>length (retry_draws d).
                 tournament_selection population 3 ((second_draw d # retry_draws d) ! n) =
                   Inr parent2 \<and>
                 (\<forall>m<n. tournament_selection population 3
                           ((second_draw d # retry_draws d) ! m) = Inr parent1))"
  proof (cases "retry_second population p1 p2 (retry_draws d)")
    case None
    with rc have "1 < length population" "p2 = p1"
      "\<forall>r\<in>set (retry_draws d). tournament_selection population 3 r = Inr p1"
      by simp_all
    then show ?thesis
      using None by (simp add: sel p1 p2)
  next
    case (Some res)
    show ?thesis
    proof (cases res)
      case (Inl e)
      with Some rc show ?thesis by simp
    next
      case (Inr q)
      with Some rc obtain n where
        neq: "1 < length population \<longrightarrow> q \<noteq> p1" and n: "n \<le> length (retry_draws d)" and
        at: "(Inr p2 # map (tournament_selection population 3) (retry_draws d)) ! n = Inr q" and
        before: "\<forall>m<n. (Inr p2 # map (tournament_selection population 3) (retry_draws d)) ! m
                   = Inr p1"
        by auto
      have "tournament_selection population 3 (?ds ! n) = Inr q"
        using at nth [OF n] by simp
      moreover have "\<forall>m<n. tournament_selection population 3 (?ds ! m) = Inr p1"
        using before nth n by auto
      ultimately have "\<exists>n\<le>length (retry_draws d).
          tournament_selection population 3 (?ds ! n) = Inr q \<and>
          (\<forall>m<n. tournament_selection population 3 (?ds ! m) = Inr p1)"
        using n by blast
      then show ?thesis
        using neq Some Inr by (simp add: sel p1)
    qed
  qed
qed

text \<open>Two pools to run the selection on.\<close>

definition example_pool :: "controller list" where
  "example_pool =
     [\<lparr>num_features = 6, hidden_size = 8, genotype = [1, 2],
       fit_score = 30, fit_rel = 0, previous_y = None\<rparr>,
      \<lparr>num_features = 6, hidden_size = 8, genotype = [3, 4],
       fit_score = 40, fit_rel = 0, previous_y = None\<rparr>,
      \<lparr>num_features = 6, hidden_size = 8, genotype = [5, 6],
       fit_score = 10, fit_rel = 0, previous_y = None\<rparr>,
      \<lparr>num_features = 6, hidden_size = 8, genotype = [7, 8],
       fit_score = 20, fit_rel = 0, previous_y = None\<rparr>]"

definition small_pool :: "controller list" where
  "small_pool =
     [\<lparr>num_features = 6, hidden_size = 8, genotype = [3, 4],
       fit_score = 40, fit_rel = 0, previous_y = None\<rparr>,
      \<lparr>num_features = 6, hidden_size = 8, genotype = [1, 2],
       fit_score = 30, fit_rel = 0, previous_y = None\<rparr>]"

lemma example_pool_length: "length example_pool = 4"
  by (simp add: example_pool_def)

lemma example_sample_low:
  "random_sample example_pool (min 3 (length example_pool)) (\<lambda>i. 0) = Inr [0, 1, 2]"
  unfolding example_pool_def by code_simp

lemma example_sample_high:
  "random_sample example_pool (min 3 (length example_pool)) (\<lambda>i. 3) = Inr [3, 0, 2]"
  unfolding example_pool_def by code_simp

lemma example_tournament_low: "tournament_selection example_pool 3 (\<lambda>i. 0) = Inr 1"
  unfolding tournament_selection_def example_sample_low
  by (simp add: py_max_def example_pool_def)

lemma example_tournament_high: "tournament_selection example_pool 3 (\<lambda>i. 3) = Inr 0"
  unfolding tournament_selection_def example_sample_high
  by (simp add: py_max_def example_pool_def)

lemma example_select_parents:
  "select_parents example_pool
     \<lparr>first_draw = \<lambda>i. 0, second_draw = \<lambda>i. 0, retry_draws = [\<lambda>i. 0, \<lambda>i. 3]\<rparr> =
   Some (Inr (1, 0))"
  by (simp add: select_parents_def example_tournament_low example_tournament_high
      example_pool_length)

theorem tournament_selection_and_retry_witness:
  "example_pool \<noteq> [] \<and> (0::nat) < 3 \<and>
   (\<exists>tournament w.
      random_sample example_pool (min 3 (length example_pool)) (\<lambda>i. 0) = Inr tournament \<and>
      distinct tournament \<and>
      tournament_selection example_pool 3 (\<lambda>i. 0) = Inr w \<and> w \<in> set tournament) \<and>
   select_parents example_pool
     \<lparr>first_draw = \<lambda>i. 0, second_draw = \<lambda>i. 0, retry_draws = [\<lambda>i. 0, \<lambda>i. 3]\<rparr> =
     Some (Inr (1, 0)) \<and>
   tournament_selection example_pool 3 (\<lambda>i. 0) = Inr 1"
proof -
  let ?d = "\<lparr>first_draw = \<lambda>i. 0, second_draw = \<lambda>i. 0, retry_draws = [\<lambda>i. 0, \<lambda>i. 3]\<rparr>"
  have h1: "example_pool \<noteq> []" by (simp add: example_pool_def)
  have h2: "(0::nat) < 3" by simp
  note inst = tournament_selection_and_retry [OF h1 h2, of "\<lambda>i. 0" ?d]
  from inst have "\<exists>tournament w.
      random_sample example_pool (min 3 (length example_pool)) (\<lambda>i. 0) = Inr tournament \<and>
      distinct tournament \<and>
      tournament_selection example_pool 3 (\<lambda>i. 0) = Inr w \<and> w \<in> set tournament"
    by blast
  moreover from inst have "tournament_selection example_pool 3 (\<lambda>i. 0) = Inr 1"
    by (simp add: example_select_parents)
  ultimately show ?thesis
    using h1 h2 example_select_parents by blast
qed

text \<open>
  A pool no larger than the tournament and with a single best member: every tournament
  is won by that member, so the loop for the second parent never ends, whatever is drawn.
\<close>

lemma small_pool_winner: "tournament_selection small_pool 3 r = Inr 0"
proof -
  have "(0::nat) < 3" and ne: "small_pool \<noteq> []" by (simp_all add: small_pool_def)
  from tournament_sample [OF ne this(1), of r] obtain t w where
    len: "length t = min 3 (length small_pool)" and d: "distinct t" and
    rng: "\<forall>p\<in>set t. p < length small_pool" and
    win: "tournament_selection small_pool 3 r = Inr w" and w: "w \<in> set t" and
    best: "\<forall>p\<in>set t. fit_score (small_pool ! p) \<le> fit_score (small_pool ! w)"
    by blast
  have "card (set t) = 2"
    using d len by (simp add: distinct_card small_pool_def)
  moreover have "set t \<subseteq> {0, 1}"
    using rng by (auto simp add: small_pool_def less_Suc_eq numeral_2_eq_2)
  ultimately have "set t = {0, 1}"
    by (intro card_subset_eq) simp_all
  with best have "fit_score (small_pool ! 0) \<le> fit_score (small_pool ! w)" by simp
  moreover from w rng have "w < 2" by (auto simp add: small_pool_def)
  ultimately have "w = 0"
    by (cases "w = 0") (auto simp add: small_pool_def less_Suc_eq numeral_2_eq_2)
  with win show ?thesis by simp
qed

lemma small_pool_retry_never_ends: "retry_second small_pool 0 0 rs = None"
  by (induction rs) (simp_all add: small_pool_winner small_pool_def [symmetric],
      simp_all add: small_pool_def)

lemma small_pool_select_never_ends: "select_parents small_pool d = None"
  by (simp add: select_parents_def small_pool_winner small_pool_retry_never_ends)


section \<open>genetic_controller.py: the next generation\<close>

text \<open>
  \<open>round(x)\<close> of a float is the nearest integer, a tie going to the even one. \<open>xs[:n]\<close> is a
  prefix, and a negative \<open>n\<close> counts from the end. \<open>sorted(population, reverse=True)\<close>
  compares controllers by \<open>__lt__\<close>, that is by \<open>fit_score\<close>, and keeps the order of equal
  ones: the list is reversed, sorted ascending by a stable sort, and reversed again.
  \<open>a += b\<close> on arrays adds in place and broadcasts only the right operand.
\<close>

definition py_round :: "real \<Rightarrow> int" where
  "py_round x =
     (let f = \<lfloor>x\<rfloor>; d = x - of_int f
      in if d < 1 / 2 then f else if 1 / 2 < d then f + 1 else if even f then f else f + 1)"

definition slice_to :: "'a list \<Rightarrow> int \<Rightarrow> 'a list" where
  "slice_to xs n = (if 0 \<le> n then take (nat n) xs else take (length xs - nat (- n)) xs)"

definition sorted_reverse :: "controller list \<Rightarrow> controller list" where
  "sorted_reverse population = rev (sort_key fit_score (rev population))"

definition np_iadd :: "real list \<Rightarrow> real list \<Rightarrow> error + real list" where
  "np_iadd a b =
     (if length b = length a then Inr (map2 (+) a b)
      else if length b = 1 then Inr (map (\<lambda>x. x + b ! 0) a)
      else Inl ValueError)"

text \<open>
  Lines 116 to 119, with the two running sums of the statistics and the list \<open>next_gen\<close>:
  \<open>sorted_pop[i]\<close> raises \<open>IndexError\<close> past the end, the sum of the genes raises on arrays
  of different lengths, and the elite is built by the constructor without mutation.
\<close>

fun elite_loop ::
  "controller list \<Rightarrow> nat list \<Rightarrow> real \<times> real list \<times> controller list
     \<Rightarrow> error + (real \<times> real list \<times> controller list)" where
  "elite_loop sorted_pop [] state = Inr state"
| "elite_loop sorted_pop (i # is) (elite_fit_score, elite_genes, next_gen) =
     (if \<not> i < length sorted_pop then Inl IndexError
      else (case np_iadd elite_genes (genotype (sorted_pop ! i)) of
              Inl e \<Rightarrow> Inl e
            | Inr elite_genes' \<Rightarrow>
                (case Genetic_AI (Some (genotype (sorted_pop ! i))) 6 8 False 0.1 (\<lambda>k. 0) of
                   Inl e \<Rightarrow> Inl e
                 | Inr elite \<Rightarrow>
                     elite_loop sorted_pop is
                       (elite_fit_score + fit_score (sorted_pop ! i), elite_genes',
                        next_gen @ [elite]))))"

text \<open>
  Lines 126 to 135: one offspring per entry of the list of draws; the parents are
  members of the pool, by position.
\<close>

record offspring_draws =
  selecting :: selection_draws
  crossing :: cross_draws

fun offspring_loop ::
  "controller list \<Rightarrow> string \<Rightarrow> offspring_draws list \<Rightarrow> controller list
     \<Rightarrow> (error + controller list) option" where
  "offspring_loop parents aggregate [] next_gen = Some (Inr next_gen)"
| "offspring_loop parents aggregate (d # ds) next_gen =
     (case select_parents parents (selecting d) of
        None \<Rightarrow> None
      | Some (Inl e) \<Rightarrow> Some (Inl e)
      | Some (Inr (parent1, parent2)) \<Rightarrow>
          (case cross (parents ! parent1) (parents ! parent2) aggregate (crossing d) of
             Inl e \<Rightarrow> Some (Inl e)
           | Inr child \<Rightarrow> offspring_loop parents aggregate ds (next_gen @ [child])))"

text \<open>
  One epoch of \<open>run_X_epochs\<close> from the evaluated population on (lines 106 to 151), up to
  the list \<open>next_gen\<close> that line 151 makes the next population. \<open>population[0]\<close> (line 87,
  for \<open>gene_size\<close>) and \<open>sorted_pop[0]\<close> (line 114) raise \<open>IndexError\<close> on an empty
  population. The pool of parents has \<open>round(pop_size * survival_rate)\<close> members, the
  product being the double that the arithmetic \<open>ar\<close> computes. \<open>draws i\<close> holds the draws of
  the \<open>i\<close>-th offspring. \<open>None\<close> says that a loop for a second parent is still running when
  its draws are used up.

  After the offspring come the statistics of lines 137 to 142, which divide the running
  sums by \<open>pop_size\<close> and by \<open>num_elite\<close>. A sum that nothing was added to is still the
  integer \<open>0\<close> it started as, so that \<open>total_fitness / pop_size\<close> raises
  \<open>ZeroDivisionError\<close> for \<open>pop_size = 0\<close> and \<open>elite_fit_score / num_elite\<close> for
  \<open>num_elite = 0\<close>; a sum of scores is a numpy double and the sums of genes are arrays,
  whose division does not raise. An epoch that raises there never reaches line 151.
  Writing the statistics to the log (lines 144 to 149) is left out.
\<close>

definition next_generation ::
  "arithmetic \<Rightarrow> controller list \<Rightarrow> nat \<Rightarrow> nat \<Rightarrow> real \<Rightarrow> string \<Rightarrow> (nat \<Rightarrow> offspring_draws)
     \<Rightarrow> (error + controller list) option" where
  "next_generation ar population pop_size num_elite survival_rate aggregate draws =
     (if population = [] then Some (Inl IndexError)
      else (let gene_size = length (genotype (population ! 0));
                sorted_pop = sorted_reverse population
            in case elite_loop sorted_pop [0..<num_elite] (0, replicate gene_size 0, []) of
                 Inl e \<Rightarrow> Some (Inl e)
               | Inr (elite_fit_score, elite_genes, next_gen) \<Rightarrow>
                   (let num_parents = py_round (fl_mul ar (real pop_size) survival_rate);
                        parents = slice_to sorted_pop num_parents
                    in case offspring_loop parents aggregate
                              (map draws [0..<pop_size - num_elite]) next_gen of
                         None \<Rightarrow> None
                       | Some (Inl e) \<Rightarrow> Some (Inl e)
                       | Some (Inr next_gen') \<Rightarrow>
                           (if pop_size = 0 \<or> num_elite = 0 then Some (Inl ZeroDivisionError)
                            else Some (Inr next_gen')))))"

text \<open>The controllers the constructor returns for an elite and for an offspring.\<close>

definition elite_of :: "controller \<Rightarrow> controller" where
  "elite_of c = \<lparr>num_features = 6, hidden_size = 8, genotype = genotype c,
                 fit_score = 0, fit_rel = 0, previous_y = None\<rparr>"

lemma elite_loop_result:
  assumes "\<forall>i\<in>set is. i < length sp \<and> length (genotype (sp ! i)) = length eg"
  shows "\<exists>efs' eg'. elite_loop sp is (efs, eg, ng) = Inr (efs', eg', ng @ map (\<lambda>i. elite_of (sp ! i)) is)"
  using assms
proof (induction "is" arbitrary: efs eg ng)
  case Nil
  then show ?case by simp
next
  case (Cons i "is")
  from Cons.prems have i: "i < length sp" and len: "length (genotype (sp ! i)) = length eg"
    by simp_all
  let ?eg' = "map2 (+) eg (genotype (sp ! i))"
  have add: "np_iadd eg (genotype (sp ! i)) = Inr ?eg'"
    using len by (simp add: np_iadd_def)
  have "length ?eg' = length eg" using len by simp
  with Cons.prems have "\<forall>i\<in>set is. i < length sp \<and> length (genotype (sp ! i)) = length ?eg'"
    by simp
  from Cons.IH [OF this, of "efs + fit_score (sp ! i)" "ng @ [elite_of (sp ! i)]"]
  show ?case
    using i by (simp add: add Genetic_AI_unmutated elite_of_def)
qed


lemma Genetic_AI_mutated:
  assumes "0 \<le> noise_sd"
  shows "Genetic_AI (Some g) F H True noise_sd z =
           Inr \<lparr>num_features = F, hidden_size = H,
                genotype = np_clip (map2 (+) g (map (\<lambda>i. 0 + noise_sd * z i) [0..<length g])) (- 3) 3,
                fit_score = 0, fit_rel = 0, previous_y = None\<rparr>"
  using assms by (simp add: Genetic_AI_def init_genotype_mutate)

definition mutated_child :: "real list \<Rightarrow> (nat \<Rightarrow> real) \<Rightarrow> controller" where
  "mutated_child g z =
     \<lparr>num_features = 6, hidden_size = 8,
      genotype = np_clip (map2 (+) g (map (\<lambda>i. 0 + 0.1 * z i) [0..<length g])) (- 3) 3,
      fit_score = 0, fit_rel = 0, previous_y = None\<rparr>"

lemma mutated_child_length: "length (genotype (mutated_child g z)) = length g"
  by (simp add: mutated_child_def np_clip_def)

lemma cross_mutates:
  assumes "new_genotype a1 a2 aggregate d = Inr g"
  shows "cross a1 a2 aggregate d = Inr (mutated_child g (noise_draws d))"
  using assms by (simp add: cross_def Genetic_AI_mutated mutated_child_def)

lemma randint_range:
  assumes "a \<le> b"
  shows "\<exists>n. randint a b r = Inr n \<and> a \<le> n \<and> n \<le> b"
proof -
  have pos: "0 < b - a + 1" using assms by simp
  have "0 \<le> int r mod (b - a + 1)" and "int r mod (b - a + 1) < b - a + 1"
    using pos by (rule pos_mod_sign, rule pos_mod_bound)
  then have "a \<le> a + int r mod (b - a + 1)" and "a + int r mod (b - a + 1) \<le> b"
    by linarith+
  then show ?thesis
    using assms by (simp add: randint_def)
qed

lemma new_genotype_returns:
  assumes "length (genotype a1) = length (genotype a2)"
    and "aggregate \<noteq> ''uniform'' \<and> aggregate \<noteq> ''blend'' \<longrightarrow> 2 \<le> length (genotype a1)"
  shows "\<exists>g. new_genotype a1 a2 aggregate d = Inr g \<and> length g = length (genotype a1)"
proof -
  consider "aggregate = ''uniform''" | "aggregate = ''blend''"
    | "aggregate \<noteq> ''uniform''" "aggregate \<noteq> ''blend''" by blast
  then show ?thesis
  proof cases
    case 1
    have "\<forall>i\<in>set [0..<length (genotype a1)]. coins d i < 0.5 \<or> i < length (genotype a2)"
      using assms(1) by simp
    from uniform_loop_result [OF this, of "genotype a1" "[]"] show ?thesis
      using 1 by (simp add: new_genotype_def)
  next
    case 2
    have "length (genotype a1) \<le> length (genotype a2)" using assms(1) by simp
    from blend_new_genotype [OF this, of d] show ?thesis
      using 2 by simp
  next
    case 3
    with assms(2) have "(1::int) \<le> int (length (genotype a1)) - 1" by simp
    from randint_range [OF this, of "cut_draw d"] obtain n where
      n: "randint 1 (int (length (genotype a1)) - 1) (cut_draw d) = Inr n"
      and lo: "1 \<le> n" and hi: "n \<le> int (length (genotype a1)) - 1"
      by blast
    have "length (take (nat n) (genotype a1) @ drop (nat n) (genotype a2)) = length (genotype a1)"
      using lo hi assms(1) by simp
    then show ?thesis
      using 3 by (simp add: new_genotype_def n)
  qed
qed

lemma cross_returns:
  assumes "length (genotype a1) = length (genotype a2)"
    and "aggregate \<noteq> ''uniform'' \<and> aggregate \<noteq> ''blend'' \<longrightarrow> 2 \<le> length (genotype a1)"
  shows "\<exists>g. new_genotype a1 a2 aggregate d = Inr g \<and> length g = length (genotype a1) \<and>
           cross a1 a2 aggregate d = Inr (mutated_child g (noise_draws d))"
  using new_genotype_returns [OF assms, of d] cross_mutates by blast


lemma retry_second_range:
  assumes "parents \<noteq> []" and "pb < length parents"
    and "retry_second parents pa pb rs = Some (Inr q)"
  shows "q < length parents"
  using assms(2,3)
proof (induction rs arbitrary: pb)
  case Nil
  then show ?case by (simp split: if_splits)
next
  case (Cons r rs)
  from tournament_returns [OF assms(1), of r] obtain w
    where w: "tournament_selection parents 3 r = Inr w" and wr: "w < length parents" by blast
  show ?case
  proof (cases "pa = pb \<and> length parents > 1")
    case True
    with Cons.prems(2) have "retry_second parents pa w rs = Some (Inr q)"
      by (simp add: w)
    from Cons.IH [OF wr this] show ?thesis .
  next
    case False
    with Cons.prems show ?thesis by auto
  qed
qed

lemma select_parents_returns:
  assumes "parents \<noteq> []" and "select_parents parents d \<noteq> None"
  shows "\<exists>p1 p2. select_parents parents d = Some (Inr (p1, p2)) \<and>
           p1 < length parents \<and> p2 < length parents"
proof -
  from tournament_returns [OF assms(1), of "first_draw d"] obtain p1
    where p1: "tournament_selection parents 3 (first_draw d) = Inr p1"
      and r1: "p1 < length parents" by blast
  from tournament_returns [OF assms(1), of "second_draw d"] obtain p2
    where p2: "tournament_selection parents 3 (second_draw d) = Inr p2"
      and r2: "p2 < length parents" by blast
  have sel: "select_parents parents d =
          (case retry_second parents p1 p2 (retry_draws d) of
             None \<Rightarrow> None
           | Some (Inl e) \<Rightarrow> Some (Inl e)
           | Some (Inr q) \<Rightarrow> Some (Inr (p1, q)))"
    by (simp add: select_parents_def p1 p2)
  note rc = retry_second_cases [OF assms(1), where pa = p1 and pb = p2 and rs = "retry_draws d"]
  from assms(2) sel obtain res where res: "retry_second parents p1 p2 (retry_draws d) = Some res"
    by (cases "retry_second parents p1 p2 (retry_draws d)") auto
  with rc obtain q where q: "res = Inr q"
    by (cases res) auto
  from retry_second_range [OF assms(1) r2 res [unfolded q]] have "q < length parents" .
  with r1 show ?thesis
    by (simp add: sel res q)
qed

lemma offspring_loop_result:
  assumes "ds \<noteq> [] \<longrightarrow> parents \<noteq> []"
    and "\<forall>d\<in>set ds. select_parents parents (selecting d) \<noteq> None"
    and "\<forall>c\<in>set parents. length (genotype c) = L"
    and "aggregate \<noteq> ''uniform'' \<and> aggregate \<noteq> ''blend'' \<longrightarrow> 2 \<le> L"
  shows "\<exists>children.
           offspring_loop parents aggregate ds ng = Some (Inr (ng @ children)) \<and>
           length children = length ds \<and>
           (\<forall>i<length ds. \<exists>p1 p2 g.
              select_parents parents (selecting (ds ! i)) = Some (Inr (p1, p2)) \<and>
              p1 < length parents \<and> p2 < length parents \<and>
              new_genotype (parents ! p1) (parents ! p2) aggregate (crossing (ds ! i)) = Inr g \<and>
              length g = L \<and>
              children ! i = mutated_child g (noise_draws (crossing (ds ! i))))"
  using assms(1,2)
proof (induction ds arbitrary: ng)
  case Nil
  then show ?case by simp
next
  case (Cons d ds)
  from Cons.prems have ne: "parents \<noteq> []"
    and sel: "select_parents parents (selecting d) \<noteq> None"
    and rest: "\<forall>d\<in>set ds. select_parents parents (selecting d) \<noteq> None"
    by simp_all
  from select_parents_returns [OF ne sel] obtain p1 p2 where
    sp: "select_parents parents (selecting d) = Some (Inr (p1, p2))"
    and r1: "p1 < length parents" and r2: "p2 < length parents" by blast
  from r1 r2 assms(3) have l1: "length (genotype (parents ! p1)) = L"
    and l2: "length (genotype (parents ! p2)) = L" by simp_all
  have eq: "length (genotype (parents ! p1)) = length (genotype (parents ! p2))"
    using l1 l2 by simp
  have single: "aggregate \<noteq> ''uniform'' \<and> aggregate \<noteq> ''blend''
      \<longrightarrow> 2 \<le> length (genotype (parents ! p1))"
    using assms(4) l1 by simp
  from cross_returns [OF eq single, of "crossing d"] obtain g where
    g: "new_genotype (parents ! p1) (parents ! p2) aggregate (crossing d) = Inr g"
    and lg: "length g = L"
    and cr: "cross (parents ! p1) (parents ! p2) aggregate (crossing d) =
               Inr (mutated_child g (noise_draws (crossing d)))"
    using l1 by auto
  let ?child = "mutated_child g (noise_draws (crossing d))"
  have "ds \<noteq> [] \<longrightarrow> parents \<noteq> []" using ne by simp
  from Cons.IH [OF this rest, of "ng @ [?child]"] obtain children where
    run: "offspring_loop parents aggregate ds (ng @ [?child]) =
            Some (Inr ((ng @ [?child]) @ children))"
    and len: "length children = length ds"
    and each: "\<forall>i<length ds. \<exists>p1 p2 g.
              select_parents parents (selecting (ds ! i)) = Some (Inr (p1, p2)) \<and>
              p1 < length parents \<and> p2 < length parents \<and>
              new_genotype (parents ! p1) (parents ! p2) aggregate (crossing (ds ! i)) = Inr g \<and>
              length g = L \<and>
              children ! i = mutated_child g (noise_draws (crossing (ds ! i)))"
    by blast
  have run': "offspring_loop parents aggregate (d # ds) ng =
                Some (Inr (ng @ (?child # children)))"
    using run by (simp add: sp cr)
  have "\<exists>p1 p2 g.
          select_parents parents (selecting ((d # ds) ! i)) = Some (Inr (p1, p2)) \<and>
          p1 < length parents \<and> p2 < length parents \<and>
          new_genotype (parents ! p1) (parents ! p2) aggregate (crossing ((d # ds) ! i)) = Inr g \<and>
          length g = L \<and>
          (?child # children) ! i = mutated_child g (noise_draws (crossing ((d # ds) ! i)))"
    if "i < length (d # ds)" for i
  proof (cases i)
    case 0
    then show ?thesis using sp r1 r2 g lg by auto
  next
    case (Suc j)
    with that have "j < length ds" by simp
    with each show ?thesis using Suc by simp
  qed
  with run' len show ?case
    by (intro exI [of _ "?child # children"]) simp
qed

lemma sorted_reverse_length: "length (sorted_reverse population) = length population"
  by (simp add: sorted_reverse_def)

lemma sorted_reverse_set: "set (sorted_reverse population) = set population"
  by (simp add: sorted_reverse_def)

lemma slice_to_set: "set (slice_to xs n) \<subseteq> set xs"
  by (auto simp add: slice_to_def dest: in_set_takeD)

lemma slice_to_nonempty:
  assumes "1 \<le> n" and "xs \<noteq> []"
  shows "slice_to xs n \<noteq> []"
  using assms by (simp add: slice_to_def)


lemma sorted_reverse_descending:
  assumes "i \<le> j" and "j < length population"
  shows "fit_score (sorted_reverse population ! j) \<le> fit_score (sorted_reverse population ! i)"
proof -
  let ?ys = "sort_key fit_score (rev population)"
  let ?n = "length population"
  have len: "length ?ys = ?n"
    by simp
  have srt: "sorted (map fit_score ?ys)"
    by (rule sorted_sort_key)
  have j: "sorted_reverse population ! j = ?ys ! (?n - Suc j)"
    using assms by (simp add: sorted_reverse_def rev_nth)
  have i: "sorted_reverse population ! i = ?ys ! (?n - Suc i)"
    using assms by (simp add: sorted_reverse_def rev_nth)
  have "map fit_score ?ys ! (?n - Suc j) \<le> map fit_score ?ys ! (?n - Suc i)"
    using srt by (rule sorted_nth_mono) (use assms in simp_all)
  then show ?thesis
    using assms by (simp add: i j)
qed

lemma mutated_child_genes:
  "mutated_child g z =
     \<lparr>num_features = 6, hidden_size = 8,
      genotype = map (\<lambda>j. min (max (g ! j + 0.1 * z j) (- 3)) 3) [0..<length g],
      fit_score = 0, fit_rel = 0, previous_y = None\<rparr>"
proof -
  have "np_clip (map2 (+) g (map (\<lambda>i. 0 + 0.1 * z i) [0..<length g])) (- 3) 3 =
        map (\<lambda>j. min (max (g ! j + 0.1 * z j) (- 3)) 3) [0..<length g]"
    by (rule nth_equalityI) (simp_all add: np_clip_def)
  then show ?thesis
    by (simp add: mutated_child_def)
qed

text \<open>The genes each strategy of the crossover builds from parents of \<open>L\<close> weights.\<close>

lemma new_genotype_genes:
  assumes "length (genotype a1) = L" and "length (genotype a2) = L"
    and "new_genotype a1 a2 aggregate d = Inr g"
  shows "aggregate = ''uniform'' \<longrightarrow>
           g = map (\<lambda>j. if coins d j < 0.5 then genotype a1 ! j else genotype a2 ! j) [0..<L]"
    and "aggregate = ''blend'' \<longrightarrow>
           g = map (\<lambda>j. if 0 < fit_score a1 + fit_score a2
                         then fit_score a1 / (fit_score a1 + fit_score a2) * genotype a1 ! j +
                              fit_score a2 / (fit_score a1 + fit_score a2) * genotype a2 ! j
                         else 0.5 * genotype a1 ! j + 0.5 * genotype a2 ! j) [0..<L]"
    and "aggregate \<noteq> ''uniform'' \<and> aggregate \<noteq> ''blend'' \<longrightarrow>
           (\<exists>cut. 1 \<le> cut \<and> cut < L \<and> g = take cut (genotype a1) @ drop cut (genotype a2))"
proof -
  show "aggregate = ''uniform'' \<longrightarrow>
           g = map (\<lambda>j. if coins d j < 0.5 then genotype a1 ! j else genotype a2 ! j) [0..<L]"
  proof
    assume u: "aggregate = ''uniform''"
    have "\<forall>i\<in>set [0..<length (genotype a1)]. coins d i < 0.5 \<or> i < length (genotype a2)"
      using assms(1,2) by simp
    from uniform_loop_result [OF this, of "genotype a1" "[]"] assms(3)
    show "g = map (\<lambda>j. if coins d j < 0.5 then genotype a1 ! j else genotype a2 ! j) [0..<L]"
      using u assms(1) by (simp add: new_genotype_def)
  qed
  show "aggregate = ''blend'' \<longrightarrow>
           g = map (\<lambda>j. if 0 < fit_score a1 + fit_score a2
                         then fit_score a1 / (fit_score a1 + fit_score a2) * genotype a1 ! j +
                              fit_score a2 / (fit_score a1 + fit_score a2) * genotype a2 ! j
                         else 0.5 * genotype a1 ! j + 0.5 * genotype a2 ! j) [0..<L]"
  proof
    assume b: "aggregate = ''blend''"
    have "length (genotype a1) \<le> length (genotype a2)"
      using assms(1,2) by simp
    from blend_new_genotype [OF this, of d] assms(3) b
    have "g = map (\<lambda>i. fst (blend_weights (fit_score a1) (fit_score a2)) * genotype a1 ! i +
                        snd (blend_weights (fit_score a1) (fit_score a2)) * genotype a2 ! i)
                [0..<L]"
      using assms(1) by simp
    then show "g = map (\<lambda>j. if 0 < fit_score a1 + fit_score a2
                         then fit_score a1 / (fit_score a1 + fit_score a2) * genotype a1 ! j +
                              fit_score a2 / (fit_score a1 + fit_score a2) * genotype a2 ! j
                         else 0.5 * genotype a1 ! j + 0.5 * genotype a2 ! j) [0..<L]"
      by (simp add: blend_weights_def Let_def)
  qed
  show "aggregate \<noteq> ''uniform'' \<and> aggregate \<noteq> ''blend'' \<longrightarrow>
           (\<exists>cut. 1 \<le> cut \<and> cut < L \<and> g = take cut (genotype a1) @ drop cut (genotype a2))"
  proof
    assume s: "aggregate \<noteq> ''uniform'' \<and> aggregate \<noteq> ''blend''"
    with assms(3) obtain n where
      n: "randint 1 (int (length (genotype a1)) - 1) (cut_draw d) = Inr n"
      and g: "g = take (nat n) (genotype a1) @ drop (nat n) (genotype a2)"
      by (auto simp add: new_genotype_def split: sum.splits)
    from n have range: "(1::int) \<le> int (length (genotype a1)) - 1"
      by (simp add: randint_def split: if_splits)
    from randint_range [OF range, of "cut_draw d"] n
    have "1 \<le> n" and "n \<le> int (length (genotype a1)) - 1"
      by simp_all
    then have "1 \<le> nat n" and "nat n < L"
      using assms(1) by simp_all
    with g show "\<exists>cut. 1 \<le> cut \<and> cut < L \<and> g = take cut (genotype a1) @ drop cut (genotype a2)"
      by blast
  qed
qed

text \<open>
  The two parents of an offspring: when the selection returns, the first parent is the
  winner of the first tournament and the second the winner of one of the later ones;
  and the selection returns as soon as the pool has one member or one of the later
  tournaments has another winner than the first.
\<close>

lemma select_parents_winners:
  assumes ne: "parents \<noteq> []" and sel: "select_parents parents d = Some (Inr (p1, p2))"
  shows "tournament_selection parents 3 (first_draw d) = Inr p1"
    and "1 < length parents \<longrightarrow> p2 \<noteq> p1"
    and "\<exists>r\<in>set (second_draw d # retry_draws d). tournament_selection parents 3 r = Inr p2"
    and "p1 < length parents" and "p2 < length parents"
proof -
  from tournament_returns [OF ne, of "first_draw d"] obtain w1
    where w1: "tournament_selection parents 3 (first_draw d) = Inr w1"
      and r1: "w1 < length parents" by blast
  from tournament_returns [OF ne, of "second_draw d"] obtain w2
    where w2: "tournament_selection parents 3 (second_draw d) = Inr w2" by blast
  have eq: "select_parents parents d =
          (case retry_second parents w1 w2 (retry_draws d) of
             None \<Rightarrow> None
           | Some (Inl e) \<Rightarrow> Some (Inl e)
           | Some (Inr q) \<Rightarrow> Some (Inr (w1, q)))"
    by (simp add: select_parents_def w1 w2)
  from sel eq have rs: "retry_second parents w1 w2 (retry_draws d) = Some (Inr p2)"
    and p1: "p1 = w1"
    by (auto split: option.splits sum.splits)
  note rc = retry_second_cases [OF ne, where pa = w1 and pb = w2 and rs = "retry_draws d"]
  from rc rs obtain n where
    neq: "1 < length parents \<longrightarrow> p2 \<noteq> w1" and n: "n \<le> length (retry_draws d)" and
    at: "(Inr w2 # map (tournament_selection parents 3) (retry_draws d)) ! n = Inr p2"
    by auto
  let ?ds = "second_draw d # retry_draws d"
  have ws: "Inr w2 # map (tournament_selection parents 3) (retry_draws d) =
            map (tournament_selection parents 3) ?ds"
    by (simp add: w2)
  have nlt: "n < length ?ds"
    using n by simp
  have "map (tournament_selection parents 3) ?ds ! n = tournament_selection parents 3 (?ds ! n)"
    using nlt by (rule nth_map)
  with at have won: "tournament_selection parents 3 (?ds ! n) = Inr p2"
    unfolding ws by simp
  have mem: "?ds ! n \<in> set ?ds"
    using nlt by (rule nth_mem)
  from tournament_returns [OF ne, of "?ds ! n"] won have r2: "p2 < length parents"
    by auto
  show "tournament_selection parents 3 (first_draw d) = Inr p1"
    by (simp add: w1 p1)
  show "1 < length parents \<longrightarrow> p2 \<noteq> p1"
    using neq by (simp add: p1)
  show "\<exists>r\<in>set (second_draw d # retry_draws d). tournament_selection parents 3 r = Inr p2"
    using won mem by blast
  show "p1 < length parents"
    using r1 by (simp add: p1)
  show "p2 < length parents"
    by (rule r2)
qed

lemma select_parents_finishes:
  assumes ne: "parents \<noteq> []"
    and fin: "length parents \<le> 1 \<or>
       (\<exists>r\<in>set (second_draw d # retry_draws d).
          tournament_selection parents 3 r \<noteq> tournament_selection parents 3 (first_draw d))"
  shows "select_parents parents d \<noteq> None"
proof
  assume none: "select_parents parents d = None"
  from tournament_returns [OF ne, of "first_draw d"] obtain w1
    where w1: "tournament_selection parents 3 (first_draw d) = Inr w1" by blast
  from tournament_returns [OF ne, of "second_draw d"] obtain w2
    where w2: "tournament_selection parents 3 (second_draw d) = Inr w2" by blast
  have eq: "select_parents parents d =
          (case retry_second parents w1 w2 (retry_draws d) of
             None \<Rightarrow> None
           | Some (Inl e) \<Rightarrow> Some (Inl e)
           | Some (Inr q) \<Rightarrow> Some (Inr (w1, q)))"
    by (simp add: select_parents_def w1 w2)
  from none eq have rs: "retry_second parents w1 w2 (retry_draws d) = None"
    by (auto split: option.splits sum.splits)
  note rc = retry_second_cases [OF ne, where pa = w1 and pb = w2 and rs = "retry_draws d"]
  from rc rs have big: "1 < length parents" and same: "w2 = w1"
    and rest: "\<forall>r\<in>set (retry_draws d). tournament_selection parents 3 r = Inr w1"
    by simp_all
  from same rest have "\<forall>r\<in>set (second_draw d # retry_draws d).
      tournament_selection parents 3 r = tournament_selection parents 3 (first_draw d)"
    by (simp add: w1 w2)
  with fin big show False
    by auto
qed

lemma next_generation_result:
  assumes pop: "population \<noteq> []" "length population = pop_size"
    and elite: "1 \<le> num_elite" "num_elite \<le> pop_size"
    and lens: "\<forall>c\<in>set population. length (genotype c) = L"
    and single: "aggregate \<noteq> ''uniform'' \<and> aggregate \<noteq> ''blend'' \<longrightarrow> 2 \<le> L"
    and sp: "sorted_pop = sorted_reverse population"
    and ps: "parents = slice_to sorted_pop (py_round (fl_mul ar (real pop_size) survival_rate))"
    and survivors: "num_elite < pop_size \<longrightarrow>
                      1 \<le> py_round (fl_mul ar (real pop_size) survival_rate)"
    and finish: "\<forall>i<pop_size - num_elite. select_parents parents (selecting (draws i)) \<noteq> None"
  shows "\<exists>children.
           next_generation ar population pop_size num_elite survival_rate aggregate draws =
             Some (Inr (map (\<lambda>i. elite_of (sorted_pop ! i)) [0..<num_elite] @ children)) \<and>
           length children = pop_size - num_elite \<and>
           (\<forall>i<pop_size - num_elite. \<exists>p1 p2 g.
              select_parents parents (selecting (draws i)) = Some (Inr (p1, p2)) \<and>
              p1 < length parents \<and> p2 < length parents \<and>
              new_genotype (parents ! p1) (parents ! p2) aggregate (crossing (draws i)) = Inr g \<and>
              length g = L \<and>
              children ! i = mutated_child g (noise_draws (crossing (draws i))))"
proof -
  have len_sp: "length sorted_pop = pop_size"
    by (simp add: sp sorted_reverse_length pop(2))
  have lens_sp: "\<forall>c\<in>set sorted_pop. length (genotype c) = L"
    using lens by (simp add: sp sorted_reverse_set)
  have "population ! 0 \<in> set population"
    using pop(1) by simp
  with lens have gene_size: "length (genotype (population ! 0)) = L"
    by blast
  have "\<forall>i\<in>set [0..<num_elite]. i < length sorted_pop \<and>
          length (genotype (sorted_pop ! i)) = length (replicate L (0::real))"
    using elite len_sp lens_sp by simp
  from elite_loop_result [OF this, of 0 "[]"] obtain efs eg where
    elites: "elite_loop sorted_pop [0..<num_elite] (0, replicate L 0, []) =
               Inr (efs, eg, map (\<lambda>i. elite_of (sorted_pop ! i)) [0..<num_elite])"
    by auto
  let ?ds = "map draws [0..<pop_size - num_elite]"
  have ne: "?ds \<noteq> [] \<longrightarrow> parents \<noteq> []"
  proof
    assume "?ds \<noteq> []"
    then have "num_elite < pop_size" by simp
    with survivors have "1 \<le> py_round (fl_mul ar (real pop_size) survival_rate)" by simp
    moreover have "sorted_pop \<noteq> []" using len_sp pop by auto
    ultimately show "parents \<noteq> []"
      unfolding ps by (rule slice_to_nonempty)
  qed
  have fin: "\<forall>d\<in>set ?ds. select_parents parents (selecting d) \<noteq> None"
    using finish by auto
  have lens_p: "\<forall>c\<in>set parents. length (genotype c) = L"
    using lens_sp slice_to_set [of sorted_pop] unfolding ps by blast
  from offspring_loop_result [OF ne fin lens_p single,
      of "map (\<lambda>i. elite_of (sorted_pop ! i)) [0..<num_elite]"]
  obtain children where
    run: "offspring_loop parents aggregate ?ds (map (\<lambda>i. elite_of (sorted_pop ! i)) [0..<num_elite])
            = Some (Inr (map (\<lambda>i. elite_of (sorted_pop ! i)) [0..<num_elite] @ children))"
    and len: "length children = length ?ds"
    and each: "\<forall>i<length ?ds. \<exists>p1 p2 g.
              select_parents parents (selecting (?ds ! i)) = Some (Inr (p1, p2)) \<and>
              p1 < length parents \<and> p2 < length parents \<and>
              new_genotype (parents ! p1) (parents ! p2) aggregate (crossing (?ds ! i)) = Inr g \<and>
              length g = L \<and>
              children ! i = mutated_child g (noise_draws (crossing (?ds ! i)))"
    by blast
  have nonzero: "\<not> (pop_size = 0 \<or> num_elite = 0)"
    using elite by simp
  have result: "next_generation ar population pop_size num_elite survival_rate aggregate draws =
      Some (Inr (map (\<lambda>i. elite_of (sorted_pop ! i)) [0..<num_elite] @ children))"
    using pop(1) elites run nonzero
    by (simp add: next_generation_def Let_def gene_size sp [symmetric] ps [symmetric])
  have "length children = pop_size - num_elite"
    using len by simp
  moreover have "\<forall>i<pop_size - num_elite. \<exists>p1 p2 g.
              select_parents parents (selecting (draws i)) = Some (Inr (p1, p2)) \<and>
              p1 < length parents \<and> p2 < length parents \<and>
              new_genotype (parents ! p1) (parents ! p2) aggregate (crossing (draws i)) = Inr g \<and>
              length g = L \<and>
              children ! i = mutated_child g (noise_draws (crossing (draws i)))"
    using each by simp
  ultimately show ?thesis
    using result by blast
qed

text \<open>
  Without an elite the epoch never reaches line 151: when both loops have returned, the
  division of the integer \<open>0\<close> by \<open>num_elite = 0\<close> raises.
\<close>

lemma zero_elite_never_returns:
  "next_generation ar population pop_size 0 survival_rate aggregate draws \<noteq> Some (Inr next_gen)"
  by (auto simp add: next_generation_def Let_def split: sum.splits option.splits)

text \<open>
  The size of the pool follows the product as computed: for 90 controllers and a survival
  rate of 0.35 the product without rounding is 31.5, which \<open>round\<close> takes to the even
  32, and the double product is 31.499999999999996, which it takes to 31.
\<close>

lemma pool_size_without_rounding:
  "py_round (fl_mul exact_arithmetic (real 90) (35 / 100)) = 32"
proof -
  have "\<lfloor>63 / 2 :: real\<rfloor> = 31"
    by (rule floor_unique) simp_all
  then show ?thesis
    by (simp add: exact_arithmetic_def py_round_def Let_def)
qed

lemma pool_size_in_doubles:
  assumes "fl_mul ar (real 90) (35 / 100) = 8866461766385663 / 281474976710656"
  shows "py_round (fl_mul ar (real 90) (35 / 100)) = 31"
proof -
  have "\<lfloor>8866461766385663 / 281474976710656 :: real\<rfloor> = 31"
    by (rule floor_unique) simp_all
  then show ?thesis
    unfolding assms by (simp add: py_round_def Let_def)
qed

text \<open>
  C5 (as amended). Take a population of \<open>pop_size\<close> controllers whose weight vectors have
  one length \<open>L\<close> (at least 2 for the single-point crossover), ranked as \<open>sorted_pop\<close>, and
  \<open>1 \<le> num_elite \<le> pop_size\<close>. Let the pool of parents, the first
  \<open>round(pop_size * survival_rate)\<close> ranked controllers, have a member when an offspring is
  needed, and let the draws of every offspring be such that its selection of parents
  ends: the pool has one member, or one of the tournaments drawn for the second parent
  has another winner than the tournament for the first. Then the epoch returns a next
  generation of \<open>pop_size\<close> controllers.

  Its first \<open>num_elite\<close> members are built by the constructor without mutation from the
  weight vectors of the first \<open>num_elite\<close> ranked controllers: the same weights, fitness 0,
  no \<open>previous_y\<close>.

  Each of the remaining \<open>pop_size - num_elite\<close> members is what \<open>cross\<close> returns for two
  parents of the pool, the winner of the first tournament and the winner of a later
  one, different members when the pool has more than one. Its genes are the genes \<open>g\<close>
  of the crossover, each with a tenth of a standard normal draw added and then clipped
  to \<open>[-3, 3]\<close>, where \<open>g\<close> takes each gene from the first parent on a coin below 0.5 and
  from the second otherwise (uniform), or is the mean of the parents' genes weighted by
  their shares of the total fitness, half and half when that total is not positive
  (blend), or is a prefix of the first parent followed by the rest of the second, cut
  at a position from 1 to \<open>L - 1\<close> (any other strategy).

  The ranking holds the controllers of the population by descending fitness, and the
  pool is its prefix.
\<close>

theorem next_generation_elites_and_offspring:
  assumes "population \<noteq> []" and "length population = pop_size"
    and "1 \<le> num_elite" and "num_elite \<le> pop_size"
    and "\<forall>c\<in>set population. length (genotype c) = L"
    and "aggregate \<noteq> ''uniform'' \<and> aggregate \<noteq> ''blend'' \<longrightarrow> 2 \<le> L"
    and "sorted_pop = sorted_reverse population"
    and "num_parents = py_round (fl_mul ar (real pop_size) survival_rate)"
    and "parents = slice_to sorted_pop num_parents"
    and "num_elite < pop_size \<longrightarrow> 1 \<le> num_parents"
    and "\<forall>i<pop_size - num_elite.
           length parents \<le> 1 \<or>
           (\<exists>r\<in>set (second_draw (selecting (draws i)) # retry_draws (selecting (draws i))).
              tournament_selection parents 3 r \<noteq>
              tournament_selection parents 3 (first_draw (selecting (draws i))))"
  shows "\<exists>next_gen.
           next_generation ar population pop_size num_elite survival_rate aggregate draws =
             Some (Inr next_gen) \<and>
           length next_gen = pop_size \<and>
           (\<forall>i<num_elite.
              next_gen ! i =
                \<lparr>num_features = 6, hidden_size = 8, genotype = genotype (sorted_pop ! i),
                 fit_score = 0, fit_rel = 0, previous_y = None\<rparr> \<and>
              Genetic_AI (Some (genotype (sorted_pop ! i))) 6 8 False 0.1 (\<lambda>k. 0) =
                Inr (next_gen ! i)) \<and>
           (\<forall>i<pop_size - num_elite. \<exists>p1 p2 g.
              tournament_selection parents 3 (first_draw (selecting (draws i))) = Inr p1 \<and>
              (\<exists>r\<in>set (second_draw (selecting (draws i)) # retry_draws (selecting (draws i))).
                 tournament_selection parents 3 r = Inr p2) \<and>
              p1 < length parents \<and> p2 < length parents \<and>
              (1 < length parents \<longrightarrow> p2 \<noteq> p1) \<and>
              cross (parents ! p1) (parents ! p2) aggregate (crossing (draws i)) =
                Inr (next_gen ! (num_elite + i)) \<and>
              next_gen ! (num_elite + i) =
                \<lparr>num_features = 6, hidden_size = 8,
                 genotype = map (\<lambda>j. min (max (g ! j + 0.1 * noise_draws (crossing (draws i)) j)
                                              (- 3)) 3) [0..<L],
                 fit_score = 0, fit_rel = 0, previous_y = None\<rparr> \<and>
              (aggregate = ''uniform'' \<longrightarrow>
                 g = map (\<lambda>j. if coins (crossing (draws i)) j < 0.5
                               then genotype (parents ! p1) ! j
                               else genotype (parents ! p2) ! j) [0..<L]) \<and>
              (aggregate = ''blend'' \<longrightarrow>
                 g = map (\<lambda>j. if 0 < fit_score (parents ! p1) + fit_score (parents ! p2)
                               then fit_score (parents ! p1) /
                                      (fit_score (parents ! p1) + fit_score (parents ! p2)) *
                                      genotype (parents ! p1) ! j +
                                    fit_score (parents ! p2) /
                                      (fit_score (parents ! p1) + fit_score (parents ! p2)) *
                                      genotype (parents ! p2) ! j
                               else 0.5 * genotype (parents ! p1) ! j +
                                    0.5 * genotype (parents ! p2) ! j) [0..<L]) \<and>
              (aggregate \<noteq> ''uniform'' \<and> aggregate \<noteq> ''blend'' \<longrightarrow>
                 (\<exists>cut. 1 \<le> cut \<and> cut < L \<and>
                    g = take cut (genotype (parents ! p1)) @
                        drop cut (genotype (parents ! p2))))) \<and>
           length sorted_pop = pop_size \<and> set sorted_pop = set population \<and>
           (\<forall>i j. i \<le> j \<and> j < pop_size \<longrightarrow>
              fit_score (sorted_pop ! j) \<le> fit_score (sorted_pop ! i)) \<and>
           (num_elite < pop_size \<longrightarrow> parents = take (nat num_parents) sorted_pop)"
proof -
  let ?elites = "map (\<lambda>i. elite_of (sorted_pop ! i)) [0..<num_elite]"
  have ps: "parents = slice_to sorted_pop (py_round (fl_mul ar (real pop_size) survival_rate))"
    using assms(8,9) by simp
  have survivors: "num_elite < pop_size \<longrightarrow>
                     1 \<le> py_round (fl_mul ar (real pop_size) survival_rate)"
    using assms(8,10) by simp
  have len_sp: "length sorted_pop = pop_size"
    by (simp add: assms(7) sorted_reverse_length assms(2))
  have set_sp: "set sorted_pop = set population"
    by (simp add: assms(7) sorted_reverse_set)
  have ne: "parents \<noteq> []" if "num_elite < pop_size"
  proof -
    from that survivors have "1 \<le> py_round (fl_mul ar (real pop_size) survival_rate)"
      by simp
    moreover have "sorted_pop \<noteq> []"
      using len_sp assms(1,2) by auto
    ultimately show ?thesis
      unfolding ps by (rule slice_to_nonempty)
  qed
  have lens_p: "\<forall>c\<in>set parents. length (genotype c) = L"
    using assms(5) set_sp slice_to_set [of sorted_pop] unfolding ps by blast
  have finish: "\<forall>i<pop_size - num_elite. select_parents parents (selecting (draws i)) \<noteq> None"
  proof (intro allI impI)
    fix i assume i: "i < pop_size - num_elite"
    then have "num_elite < pop_size" by simp
    then have "parents \<noteq> []" by (rule ne)
    moreover from assms(11) i have "length parents \<le> 1 \<or>
           (\<exists>r\<in>set (second_draw (selecting (draws i)) # retry_draws (selecting (draws i))).
              tournament_selection parents 3 r \<noteq>
              tournament_selection parents 3 (first_draw (selecting (draws i))))"
      by blast
    ultimately show "select_parents parents (selecting (draws i)) \<noteq> None"
      by (rule select_parents_finishes)
  qed
  from next_generation_result [OF assms(1-7) ps survivors finish] obtain children where
    run: "next_generation ar population pop_size num_elite survival_rate aggregate draws =
             Some (Inr (?elites @ children))"
    and len: "length children = pop_size - num_elite"
    and each: "\<forall>i<pop_size - num_elite. \<exists>p1 p2 g.
              select_parents parents (selecting (draws i)) = Some (Inr (p1, p2)) \<and>
              p1 < length parents \<and> p2 < length parents \<and>
              new_genotype (parents ! p1) (parents ! p2) aggregate (crossing (draws i)) = Inr g \<and>
              length g = L \<and>
              children ! i = mutated_child g (noise_draws (crossing (draws i)))"
    by blast
  have total: "length (?elites @ children) = pop_size"
    using len assms(4) by simp
  have el: "(?elites @ children) ! i =
                \<lparr>num_features = 6, hidden_size = 8, genotype = genotype (sorted_pop ! i),
                 fit_score = 0, fit_rel = 0, previous_y = None\<rparr> \<and>
            Genetic_AI (Some (genotype (sorted_pop ! i))) 6 8 False 0.1 (\<lambda>k. 0) =
                Inr ((?elites @ children) ! i)"
    if "i < num_elite" for i
    using that by (simp add: nth_append elite_of_def Genetic_AI_unmutated)
  have off: "\<exists>p1 p2 g.
              tournament_selection parents 3 (first_draw (selecting (draws i))) = Inr p1 \<and>
              (\<exists>r\<in>set (second_draw (selecting (draws i)) # retry_draws (selecting (draws i))).
                 tournament_selection parents 3 r = Inr p2) \<and>
              p1 < length parents \<and> p2 < length parents \<and>
              (1 < length parents \<longrightarrow> p2 \<noteq> p1) \<and>
              cross (parents ! p1) (parents ! p2) aggregate (crossing (draws i)) =
                Inr ((?elites @ children) ! (num_elite + i)) \<and>
              (?elites @ children) ! (num_elite + i) =
                \<lparr>num_features = 6, hidden_size = 8,
                 genotype = map (\<lambda>j. min (max (g ! j + 0.1 * noise_draws (crossing (draws i)) j)
                                              (- 3)) 3) [0..<L],
                 fit_score = 0, fit_rel = 0, previous_y = None\<rparr> \<and>
              (aggregate = ''uniform'' \<longrightarrow>
                 g = map (\<lambda>j. if coins (crossing (draws i)) j < 0.5
                               then genotype (parents ! p1) ! j
                               else genotype (parents ! p2) ! j) [0..<L]) \<and>
              (aggregate = ''blend'' \<longrightarrow>
                 g = map (\<lambda>j. if 0 < fit_score (parents ! p1) + fit_score (parents ! p2)
                               then fit_score (parents ! p1) /
                                      (fit_score (parents ! p1) + fit_score (parents ! p2)) *
                                      genotype (parents ! p1) ! j +
                                    fit_score (parents ! p2) /
                                      (fit_score (parents ! p1) + fit_score (parents ! p2)) *
                                      genotype (parents ! p2) ! j
                               else 0.5 * genotype (parents ! p1) ! j +
                                    0.5 * genotype (parents ! p2) ! j) [0..<L]) \<and>
              (aggregate \<noteq> ''uniform'' \<and> aggregate \<noteq> ''blend'' \<longrightarrow>
                 (\<exists>cut. 1 \<le> cut \<and> cut < L \<and>
                    g = take cut (genotype (parents ! p1)) @
                        drop cut (genotype (parents ! p2))))"
    if i: "i < pop_size - num_elite" for i
  proof -
    from each i obtain p1 p2 g where
      sel: "select_parents parents (selecting (draws i)) = Some (Inr (p1, p2))"
      and r: "p1 < length parents" "p2 < length parents"
      and g: "new_genotype (parents ! p1) (parents ! p2) aggregate (crossing (draws i)) = Inr g"
      and lg: "length g = L"
      and child: "children ! i = mutated_child g (noise_draws (crossing (draws i)))"
      by blast
    from i have "num_elite < pop_size" by simp
    then have pne: "parents \<noteq> []" by (rule ne)
    note w = select_parents_winners [OF pne sel]
    from r lens_p have l1: "length (genotype (parents ! p1)) = L"
      and l2: "length (genotype (parents ! p2)) = L"
      by simp_all
    note genes = new_genotype_genes [OF l1 l2 g]
    have at: "(?elites @ children) ! (num_elite + i) = children ! i"
      by (simp add: nth_append)
    have cr: "cross (parents ! p1) (parents ! p2) aggregate (crossing (draws i)) =
            Inr (children ! i)"
      unfolding child using g by (rule cross_mutates)
    have explicit: "children ! i =
                \<lparr>num_features = 6, hidden_size = 8,
                 genotype = map (\<lambda>j. min (max (g ! j + 0.1 * noise_draws (crossing (draws i)) j)
                                              (- 3)) 3) [0..<L],
                 fit_score = 0, fit_rel = 0, previous_y = None\<rparr>"
      unfolding child mutated_child_genes lg ..
    show ?thesis
      unfolding at using w(1) w(3) r w(2) cr explicit genes by blast
  qed
  have ranked: "\<forall>i j. i \<le> j \<and> j < pop_size \<longrightarrow>
              fit_score (sorted_pop ! j) \<le> fit_score (sorted_pop ! i)"
    unfolding assms(7) using sorted_reverse_descending [of _ _ population] assms(2)
    by blast
  have pool: "num_elite < pop_size \<longrightarrow> parents = take (nat num_parents) sorted_pop"
    using assms(9,10) by (auto simp add: slice_to_def)
  from run total el off len_sp set_sp ranked pool show ?thesis
    by blast
qed

text \<open>
  A generation to run: five controllers, two elites, a survival rate of 0.75. The
  product 3.75 is exact in doubles and rounds to a pool of the best four. For every
  offspring the first tournament is won by the best controller, the first tournament
  for the second parent too, and the second one by the runner-up. The noise lowers the
  first gene of an offspring by 0.1 and sends the second one above 3.
\<close>

definition example_population :: "controller list" where
  "example_population =
     [\<lparr>num_features = 6, hidden_size = 8, genotype = [1, 2],
       fit_score = 30, fit_rel = 0, previous_y = None\<rparr>,
      \<lparr>num_features = 6, hidden_size = 8, genotype = [9, 9],
       fit_score = 5, fit_rel = 0, previous_y = None\<rparr>,
      \<lparr>num_features = 6, hidden_size = 8, genotype = [3, 4],
       fit_score = 40, fit_rel = 0, previous_y = None\<rparr>,
      \<lparr>num_features = 6, hidden_size = 8, genotype = [5, 6],
       fit_score = 10, fit_rel = 0, previous_y = None\<rparr>,
      \<lparr>num_features = 6, hidden_size = 8, genotype = [7, 8],
       fit_score = 20, fit_rel = 0, previous_y = None\<rparr>]"

definition retried_draws :: "nat \<Rightarrow> offspring_draws" where
  "retried_draws i =
     \<lparr>selecting = \<lparr>first_draw = \<lambda>k. 0, second_draw = \<lambda>k. 0, retry_draws = [\<lambda>k. 5]\<rparr>,
      crossing = \<lparr>coins = \<lambda>k. 0, cut_draw = 0,
                  noise_draws = \<lambda>k. if k = 0 then - 1 else 20\<rparr>\<rparr>"

definition example_draws :: "nat \<Rightarrow> offspring_draws" where
  "example_draws i =
     \<lparr>selecting = \<lparr>first_draw = \<lambda>k. 0, second_draw = \<lambda>k. 5, retry_draws = []\<rparr>,
      crossing = \<lparr>coins = \<lambda>k. 0, cut_draw = 0, noise_draws = \<lambda>k. 0\<rparr>\<rparr>"

definition example_ranked :: "controller list" where
  "example_ranked =
     [\<lparr>num_features = 6, hidden_size = 8, genotype = [3, 4],
       fit_score = 40, fit_rel = 0, previous_y = None\<rparr>,
      \<lparr>num_features = 6, hidden_size = 8, genotype = [1, 2],
       fit_score = 30, fit_rel = 0, previous_y = None\<rparr>,
      \<lparr>num_features = 6, hidden_size = 8, genotype = [7, 8],
       fit_score = 20, fit_rel = 0, previous_y = None\<rparr>,
      \<lparr>num_features = 6, hidden_size = 8, genotype = [5, 6],
       fit_score = 10, fit_rel = 0, previous_y = None\<rparr>]"

lemma example_sorted: "sorted_reverse example_pool = example_ranked"
  by (simp add: sorted_reverse_def example_pool_def example_ranked_def)

lemma example_round: "py_round (fl_mul exact_arithmetic (real 4) 1) = 4"
  by (simp add: exact_arithmetic_def py_round_def)

lemma example_parents:
  "slice_to example_ranked (py_round (fl_mul exact_arithmetic (real 4) 1)) = example_ranked"
  unfolding example_round by (simp add: slice_to_def example_ranked_def)

lemma ranked_sample_first:
  "random_sample example_ranked (min 3 (length example_ranked)) (\<lambda>k. 0) = Inr [0, 1, 2]"
  unfolding example_ranked_def by code_simp

lemma ranked_sample_second:
  "random_sample example_ranked (min 3 (length example_ranked)) (\<lambda>k. 5) = Inr [1, 3, 2]"
  unfolding example_ranked_def by code_simp

lemma ranked_tournament_first: "tournament_selection example_ranked 3 (\<lambda>k. 0) = Inr 0"
  unfolding tournament_selection_def ranked_sample_first
  by (simp add: py_max_def example_ranked_def)

lemma ranked_tournament_second: "tournament_selection example_ranked 3 (\<lambda>k. 5) = Inr 1"
  unfolding tournament_selection_def ranked_sample_second
  by (simp add: py_max_def example_ranked_def)

lemma ranked_select: "select_parents example_ranked (selecting (example_draws i)) = Some (Inr (0, 1))"
  by (simp add: select_parents_def example_draws_def ranked_tournament_first
      ranked_tournament_second)

lemma population_sorted:
  "sorted_reverse example_population =
     example_ranked @ [\<lparr>num_features = 6, hidden_size = 8, genotype = [9, 9],
                        fit_score = 5, fit_rel = 0, previous_y = None\<rparr>]"
  by (simp add: sorted_reverse_def example_population_def example_ranked_def)

lemma population_round: "py_round (fl_mul exact_arithmetic (real 5) (3 / 4)) = 4"
proof -
  have "\<lfloor>15 / 4 :: real\<rfloor> = 3"
    by (rule floor_unique) simp_all
  then show ?thesis
    by (simp add: exact_arithmetic_def py_round_def Let_def)
qed

lemma population_parents:
  "slice_to (example_ranked @ [c]) 4 = example_ranked"
  by (simp add: slice_to_def example_ranked_def)

theorem next_generation_elites_and_offspring_witness:
  "example_population \<noteq> [] \<and> length example_population = 5 \<and> (1::nat) \<le> 2 \<and> (2::nat) \<le> 5 \<and>
   (\<exists>next_gen.
      next_generation exact_arithmetic example_population 5 2 (3 / 4) ''blend'' retried_draws =
        Some (Inr next_gen) \<and>
      length next_gen = 5 \<and>
      next_gen ! 0 =
        \<lparr>num_features = 6, hidden_size = 8, genotype = [3, 4],
         fit_score = 0, fit_rel = 0, previous_y = None\<rparr> \<and>
      next_gen ! 1 =
        \<lparr>num_features = 6, hidden_size = 8, genotype = [1, 2],
         fit_score = 0, fit_rel = 0, previous_y = None\<rparr> \<and>
      next_gen ! 2 =
        \<lparr>num_features = 6, hidden_size = 8, genotype = [143 / 70, 3],
         fit_score = 0, fit_rel = 0, previous_y = None\<rparr>)"
proof -
  let ?last = "\<lparr>num_features = 6, hidden_size = 8, genotype = [9, 9 :: real],
                fit_score = 5, fit_rel = 0, previous_y = None\<rparr>"
  have h1: "example_population \<noteq> []" and h2: "length example_population = 5"
    by (simp_all add: example_population_def)
  have h3: "(1::nat) \<le> 2" and h4: "(2::nat) \<le> 5"
    by simp_all
  have h5: "\<forall>c\<in>set example_population. length (genotype c) = 2"
    by (simp add: example_population_def)
  have h6: "''blend'' \<noteq> ''uniform'' \<and> ''blend'' \<noteq> ''blend'' \<longrightarrow> (2::nat) \<le> 2"
    by simp
  have h7: "example_ranked @ [?last] = sorted_reverse example_population"
    by (simp only: population_sorted)
  have h8: "(4::int) = py_round (fl_mul exact_arithmetic (real 5) (3 / 4))"
    by (simp only: population_round)
  have h9: "example_ranked = slice_to (example_ranked @ [?last]) 4"
    by (simp only: population_parents)
  have h10: "(2::nat) < 5 \<longrightarrow> (1::int) \<le> 4"
    by simp
  have h11: "\<forall>i<5 - 2.
           length example_ranked \<le> 1 \<or>
           (\<exists>r\<in>set (second_draw (selecting (retried_draws i)) #
                      retry_draws (selecting (retried_draws i))).
              tournament_selection example_ranked 3 r \<noteq>
              tournament_selection example_ranked 3 (first_draw (selecting (retried_draws i))))"
    by (simp add: retried_draws_def ranked_tournament_first ranked_tournament_second)
  from next_generation_elites_and_offspring [OF h1 h2 h3 h4 h5 h6 h7 h8 h9 h10 h11]
  obtain next_gen where
    run: "next_generation exact_arithmetic example_population 5 2 (3 / 4) ''blend'' retried_draws =
            Some (Inr next_gen)"
    and len: "length next_gen = 5"
    and el: "\<forall>i<2. next_gen ! i =
                \<lparr>num_features = 6, hidden_size = 8,
                 genotype = genotype ((example_ranked @ [?last]) ! i),
                 fit_score = 0, fit_rel = 0, previous_y = None\<rparr> \<and>
              Genetic_AI (Some (genotype ((example_ranked @ [?last]) ! i))) 6 8 False 0.1 (\<lambda>k. 0) =
                Inr (next_gen ! i)"
    and off: "\<forall>i<5 - 2. \<exists>p1 p2 g.
              tournament_selection example_ranked 3 (first_draw (selecting (retried_draws i))) =
                Inr p1 \<and>
              (\<exists>r\<in>set (second_draw (selecting (retried_draws i)) #
                         retry_draws (selecting (retried_draws i))).
                 tournament_selection example_ranked 3 r = Inr p2) \<and>
              p1 < length example_ranked \<and> p2 < length example_ranked \<and>
              (1 < length example_ranked \<longrightarrow> p2 \<noteq> p1) \<and>
              cross (example_ranked ! p1) (example_ranked ! p2) ''blend''
                  (crossing (retried_draws i)) =
                Inr (next_gen ! (2 + i)) \<and>
              next_gen ! (2 + i) =
                \<lparr>num_features = 6, hidden_size = 8,
                 genotype = map (\<lambda>j. min (max (g ! j +
                                                 0.1 * noise_draws (crossing (retried_draws i)) j)
                                              (- 3)) 3) [0..<2],
                 fit_score = 0, fit_rel = 0, previous_y = None\<rparr> \<and>
              (''blend'' = ''uniform'' \<longrightarrow>
                 g = map (\<lambda>j. if coins (crossing (retried_draws i)) j < 0.5
                               then genotype (example_ranked ! p1) ! j
                               else genotype (example_ranked ! p2) ! j) [0..<2]) \<and>
              (''blend'' = ''blend'' \<longrightarrow>
                 g = map (\<lambda>j. if 0 < fit_score (example_ranked ! p1) +
                                      fit_score (example_ranked ! p2)
                               then fit_score (example_ranked ! p1) /
                                      (fit_score (example_ranked ! p1) +
                                       fit_score (example_ranked ! p2)) *
                                      genotype (example_ranked ! p1) ! j +
                                    fit_score (example_ranked ! p2) /
                                      (fit_score (example_ranked ! p1) +
                                       fit_score (example_ranked ! p2)) *
                                      genotype (example_ranked ! p2) ! j
                               else 0.5 * genotype (example_ranked ! p1) ! j +
                                    0.5 * genotype (example_ranked ! p2) ! j) [0..<2]) \<and>
              (''blend'' \<noteq> ''uniform'' \<and> ''blend'' \<noteq> ''blend'' \<longrightarrow>
                 (\<exists>cut. 1 \<le> cut \<and> cut < 2 \<and>
                    g = take cut (genotype (example_ranked ! p1)) @
                        drop cut (genotype (example_ranked ! p2))))"
    by blast
  have two: "[0..<2] = [0, Suc 0]"
    by (simp add: upt_rec)
  from el have e0: "next_gen ! 0 =
        \<lparr>num_features = 6, hidden_size = 8, genotype = [3, 4],
         fit_score = 0, fit_rel = 0, previous_y = None\<rparr>"
    by (simp add: example_ranked_def)
  from el have "next_gen ! Suc 0 =
        \<lparr>num_features = 6, hidden_size = 8, genotype = [1, 2],
         fit_score = 0, fit_rel = 0, previous_y = None\<rparr>"
    by (simp add: example_ranked_def)
  then have e1: "next_gen ! 1 =
        \<lparr>num_features = 6, hidden_size = 8, genotype = [1, 2],
         fit_score = 0, fit_rel = 0, previous_y = None\<rparr>"
    by simp
  have zero: "(0::nat) < 5 - 2"
    by simp
  from off [rule_format, OF zero] obtain p1 p2 g where
    first: "tournament_selection example_ranked 3 (first_draw (selecting (retried_draws 0))) =
                Inr p1"
    and later: "\<exists>r\<in>set (second_draw (selecting (retried_draws 0)) #
                         retry_draws (selecting (retried_draws 0))).
                 tournament_selection example_ranked 3 r = Inr p2"
    and differ: "1 < length example_ranked \<longrightarrow> p2 \<noteq> p1"
    and child: "next_gen ! (2 + 0) =
                \<lparr>num_features = 6, hidden_size = 8,
                 genotype = map (\<lambda>j. min (max (g ! j +
                                                 0.1 * noise_draws (crossing (retried_draws 0)) j)
                                              (- 3)) 3) [0..<2],
                 fit_score = 0, fit_rel = 0, previous_y = None\<rparr>"
    and blend: "''blend'' = ''blend'' \<longrightarrow>
                 g = map (\<lambda>j. if 0 < fit_score (example_ranked ! p1) +
                                      fit_score (example_ranked ! p2)
                               then fit_score (example_ranked ! p1) /
                                      (fit_score (example_ranked ! p1) +
                                       fit_score (example_ranked ! p2)) *
                                      genotype (example_ranked ! p1) ! j +
                                    fit_score (example_ranked ! p2) /
                                      (fit_score (example_ranked ! p1) +
                                       fit_score (example_ranked ! p2)) *
                                      genotype (example_ranked ! p2) ! j
                               else 0.5 * genotype (example_ranked ! p1) ! j +
                                    0.5 * genotype (example_ranked ! p2) ! j) [0..<2]"
    by (elim exE conjE)
  note g = blend [THEN mp, OF refl]
  from first have p1: "p1 = 0"
    by (simp add: retried_draws_def ranked_tournament_first)
  have "length example_ranked = 4"
    by (simp add: example_ranked_def)
  with differ p1 have "p2 \<noteq> 0"
    by simp
  with later have p2: "p2 = Suc 0"
    by (auto simp add: retried_draws_def ranked_tournament_first ranked_tournament_second)
  have genes: "g = [15 / 7, 22 / 7]"
    unfolding g p1 p2 two by (simp add: example_ranked_def)
  have e2: "next_gen ! 2 =
        \<lparr>num_features = 6, hidden_size = 8, genotype = [143 / 70, 3],
         fit_score = 0, fit_rel = 0, previous_y = None\<rparr>"
    using child unfolding genes two by (simp add: retried_draws_def)
  from h1 h2 h3 h4 run len e0 e1 e2 show ?thesis
    by blast
qed

text \<open>
  The end-to-end scenario of the specification (section 8): four controllers with
  fitness 40, 30, 20, 10, one elite, survival rate 0.5. The pool is the best two, every
  tournament takes both and is won by the best, so the loop for the second parent of
  the first offspring never ends: whatever is drawn, no next generation is returned.
\<close>

lemma ranked_sorted: "sorted_reverse example_ranked = example_ranked"
  by (simp add: sorted_reverse_def example_ranked_def)

lemma scenario_parents:
  "slice_to example_ranked (py_round (fl_mul exact_arithmetic (real 4) (1 / 2))) = small_pool"
proof -
  have "py_round (fl_mul exact_arithmetic (real 4) (1 / 2)) = 2"
    by (simp add: exact_arithmetic_def py_round_def)
  then show ?thesis
    by (simp add: slice_to_def example_ranked_def small_pool_def)
qed

lemma scenario_elites:
  "\<exists>st. elite_loop example_ranked [0..<1]
          (0, replicate (length (genotype (example_ranked ! 0))) 0, []) = Inr st"
  by (simp add: example_ranked_def np_iadd_def Genetic_AI_unmutated)

lemma small_pool_offspring_never_ends:
  assumes "ds \<noteq> []"
  shows "offspring_loop small_pool strategy ds ng = None"
  using assms by (cases ds) (simp_all add: small_pool_select_never_ends)

lemma scenario_never_ends:
  "next_generation exact_arithmetic example_ranked 4 1 (1 / 2) strategy draws = None"
proof -
  have ne: "example_ranked \<noteq> []"
    by (simp add: example_ranked_def)
  from scenario_elites obtain efs eg ng where
    el: "elite_loop example_ranked [0..<1]
           (0, replicate (length (genotype (example_ranked ! 0))) 0, []) = Inr (efs, eg, ng)"
    by (metis prod_cases3)
  have "map draws [0..<4 - 1] \<noteq> []"
    by simp
  then have off: "offspring_loop small_pool strategy (map draws [0..<4 - 1]) ng = None"
    by (rule small_pool_offspring_never_ends)
  show ?thesis
    by (simp only: next_generation_def Let_def ne if_False ranked_sorted el sum.case
        prod.case scenario_parents off option.case)
qed

text \<open>
  A pool without members: with a survival rate of 0.1 the pool of four controllers has
  \<open>round(0.4) = 0\<close> members, and the first tournament ends in \<open>max\<close> of nothing.
\<close>

lemma empty_pool_raises:
  "next_generation exact_arithmetic example_ranked 4 1 (1 / 10) strategy draws =
     Some (Inl ValueError)"
proof -
  have ne: "example_ranked \<noteq> []"
    by (simp add: example_ranked_def)
  from scenario_elites obtain efs eg ng where
    el: "elite_loop example_ranked [0..<1]
           (0, replicate (length (genotype (example_ranked ! 0))) 0, []) = Inr (efs, eg, ng)"
    by (metis prod_cases3)
  have "py_round (fl_mul exact_arithmetic (real 4) (1 / 10)) = 0"
    by (simp add: exact_arithmetic_def py_round_def)
  then have pool: "slice_to example_ranked (py_round (fl_mul exact_arithmetic (real 4) (1 / 10))) = []"
    by (simp add: slice_to_def)
  have three: "[0..<4 - 1] = [0, 1, 2]"
    by (simp add: upt_rec)
  have off: "offspring_loop [] strategy (map draws [0..<4 - 1]) ng = Some (Inl ValueError)"
    unfolding three
    by (simp add: select_parents_def tournament_empty_pool_raises)
  show ?thesis
    by (simp only: next_generation_def Let_def ne if_False ranked_sorted el sum.case
        prod.case pool off option.case)
qed

text \<open>
  C5 as stated fails. In the scenario of the specification, a ranked population of four
  with one elite and a survival rate of 0.5, there is no next generation, whatever the
  strategy and whatever is drawn; and with a survival rate of 0.1 the epoch raises
  \<open>ValueError\<close>. In both the number of elites does not exceed the size of the
  population, and no slot is filled by an offspring.
\<close>

theorem next_generation_scenario_counterexample:
  "\<not> (\<exists>strategy draws next_gen.
        next_generation exact_arithmetic example_ranked 4 1 (1 / 2) strategy draws =
          Some (Inr next_gen)) \<and>
   sorted_reverse example_ranked = example_ranked \<and> (1::nat) \<le> 4 \<and> length example_ranked = 4 \<and>
   next_generation exact_arithmetic example_ranked 4 1 (1 / 10) ''blend'' example_draws =
     Some (Inl ValueError)"
proof -
  have never: "\<not> (\<exists>strategy draws next_gen.
        next_generation exact_arithmetic example_ranked 4 1 (1 / 2) strategy draws =
          Some (Inr next_gen))"
  proof
    assume "\<exists>strategy draws next_gen.
        next_generation exact_arithmetic example_ranked 4 1 (1 / 2) strategy draws =
          Some (Inr next_gen)"
    then obtain strategy draws next_gen where
      "next_generation exact_arithmetic example_ranked 4 1 (1 / 2) strategy draws =
          Some (Inr next_gen)"
      by blast
    with scenario_never_ends [of strategy draws] show False
      by simp
  qed
  have len: "length example_ranked = 4"
    by (simp add: example_ranked_def)
  have one: "(1::nat) \<le> 4"
    by simp
  from never ranked_sorted one len empty_pool_raises [of "''blend''" example_draws]
  show ?thesis
    by (intro conjI)
qed

section \<open>The length of the weight vector\<close>

lemma xavier_returns:
  assumes "0 < F + H"
  shows "\<exists>c. Genetic_AI None F H mutate noise_sd u = Inr c \<and>
           length (genotype c) = total_weights F H \<and> num_features c = F \<and> hidden_size c = H"
  using assms
  by (simp add: Genetic_AI_def init_genotype_def xavier_init_def random_uniform_def Let_def)

lemma cross_length:
  assumes "cross a1 a2 aggregate d = Inr child"
    and "length (genotype a1) = length (genotype a2)"
  shows "length (genotype child) = length (genotype a1) \<and>
         num_features child = 6 \<and> hidden_size child = 8"
proof (cases "aggregate \<noteq> ''uniform'' \<and> aggregate \<noteq> ''blend'' \<and> length (genotype a1) < 2")
  case True
  then have "int (length (genotype a1)) - 1 < 1" by simp
  then have "new_genotype a1 a2 aggregate d = Inl ValueError"
    using True by (simp add: new_genotype_def randint_def)
  with assms(1) show ?thesis
    by (simp add: cross_def)
next
  case False
  then have "aggregate \<noteq> ''uniform'' \<and> aggregate \<noteq> ''blend'' \<longrightarrow> 2 \<le> length (genotype a1)"
    by auto
  from cross_returns [OF assms(2) this, of d] obtain g where
    "length g = length (genotype a1)"
    "cross a1 a2 aggregate d = Inr (mutated_child g (noise_draws d))"
    by blast
  with assms(1) show ?thesis
    by (auto simp add: mutated_child_def np_clip_def)
qed

lemma getMove_keeps_weights:
  "genotype (snd (getMove c s)) = genotype c \<and>
   num_features (snd (getMove c s)) = num_features c \<and>
   hidden_size (snd (getMove c s)) = hidden_size c"
  by (cases s) (simp add: getMove_def Let_def)

lemma elite_loop_members:
  assumes "elite_loop sp is (efs, eg, ng) = Inr (efs', eg', out)"
  shows "out = ng @ map (\<lambda>i. elite_of (sp ! i)) is \<and> (\<forall>i\<in>set is. i < length sp)"
  using assms
proof (induction "is" arbitrary: efs eg ng)
  case Nil
  then show ?case by simp
next
  case (Cons i "is")
  from Cons.prems have i: "i < length sp"
    by (simp split: if_splits)
  with Cons.prems obtain eg2 where
    "elite_loop sp is (efs + fit_score (sp ! i), eg2, ng @ [elite_of (sp ! i)]) = Inr (efs', eg', out)"
    by (auto simp add: Genetic_AI_unmutated elite_of_def split: sum.splits)
  from Cons.IH [OF this] show ?case
    using i by simp
qed

lemma select_parents_range:
  assumes "select_parents parents d = Some (Inr (p1, p2))"
  shows "p1 < length parents \<and> p2 < length parents"
proof (cases "parents = []")
  case True
  then have "select_parents parents d = Some (Inl ValueError)"
    by (simp add: select_parents_def tournament_selection_def random_sample_def py_max_def)
  with assms show ?thesis by simp
next
  case False
  from assms have "select_parents parents d \<noteq> None" by simp
  from select_parents_returns [OF False this] assms show ?thesis by auto
qed

lemma offspring_loop_members:
  assumes "offspring_loop parents aggregate ds ng = Some (Inr out)"
    and "\<forall>c\<in>set parents. length (genotype c) = L"
    and "\<forall>c\<in>set ng. length (genotype c) = L \<and> num_features c = 6 \<and> hidden_size c = 8"
  shows "\<forall>c\<in>set out. length (genotype c) = L \<and> num_features c = 6 \<and> hidden_size c = 8"
  using assms(1,3)
proof (induction ds arbitrary: ng)
  case Nil
  then show ?case by simp
next
  case (Cons d ds)
  from Cons.prems(1) obtain p1 p2 where
    sel: "select_parents parents (selecting d) = Some (Inr (p1, p2))"
    by (auto split: option.splits sum.splits)
  from select_parents_range [OF sel] have r: "p1 < length parents" "p2 < length parents"
    by simp_all
  with assms(2) have l: "length (genotype (parents ! p1)) = L" "length (genotype (parents ! p2)) = L"
    by simp_all
  from Cons.prems(1) sel obtain child where
    cr: "cross (parents ! p1) (parents ! p2) aggregate (crossing d) = Inr child"
    and rest: "offspring_loop parents aggregate ds (ng @ [child]) = Some (Inr out)"
    by (auto split: sum.splits)
  from cross_length [OF cr] l have
    "length (genotype child) = L \<and> num_features child = 6 \<and> hidden_size child = 8"
    by simp
  with Cons.prems(2) have
    "\<forall>c\<in>set (ng @ [child]). length (genotype c) = L \<and> num_features c = 6 \<and> hidden_size c = 8"
    by simp
  from Cons.IH [OF rest this] show ?case .
qed

lemma next_generation_members:
  assumes "next_generation ar population pop_size num_elite survival_rate aggregate draws =
             Some (Inr next_gen)"
    and "\<forall>c\<in>set population. length (genotype c) = L"
  shows "\<forall>c\<in>set next_gen. length (genotype c) = L \<and> num_features c = 6 \<and> hidden_size c = 8"
proof -
  let ?sp = "sorted_reverse population"
  let ?ps = "slice_to ?sp (py_round (fl_mul ar (real pop_size) survival_rate))"
  from assms(1) have ne: "population \<noteq> []"
    by (auto simp add: next_generation_def)
  with assms(1) obtain efs eg ng where
    el: "elite_loop ?sp [0..<num_elite]
           (0, replicate (length (genotype (population ! 0))) 0, []) = Inr (efs, eg, ng)"
    and off: "offspring_loop ?ps aggregate (map draws [0..<pop_size - num_elite]) ng =
                Some (Inr next_gen)"
    by (auto simp add: next_generation_def Let_def split: sum.splits option.splits if_splits)
  have lens_sp: "\<forall>c\<in>set ?sp. length (genotype c) = L"
    using assms(2) by (simp add: sorted_reverse_set)
  from elite_loop_members [OF el] have
    ng: "ng = map (\<lambda>i. elite_of (?sp ! i)) [0..<num_elite]"
    and rng: "\<forall>i\<in>set [0..<num_elite]. i < length ?sp"
    by simp_all
  have "\<forall>c\<in>set ng. length (genotype c) = L \<and> num_features c = 6 \<and> hidden_size c = 8"
    unfolding ng using rng lens_sp by (auto simp add: elite_of_def)
  moreover have "\<forall>c\<in>set ?ps. length (genotype c) = L"
    using lens_sp slice_to_set [of ?sp] by blast
  ultimately show ?thesis
    using offspring_loop_members [OF off] by blast
qed


lemma example_generation_returns:
  "\<exists>next_gen. next_generation exact_arithmetic example_pool 4 1 1 ''blend'' example_draws = Some (Inr next_gen)"
proof -
  have h1: "example_pool \<noteq> []" and h2: "length example_pool = 4"
    by (simp_all add: example_pool_def)
  have h3: "(1::nat) \<le> 4" by simp
  have h4: "\<forall>c\<in>set example_pool. length (genotype c) = 2"
    by (simp add: example_pool_def)
  have h5: "''blend'' \<noteq> ''uniform'' \<and> ''blend'' \<noteq> ''blend'' \<longrightarrow> (2::nat) \<le> 2"
    by simp
  have h6: "example_ranked = sorted_reverse example_pool"
    by (simp add: example_sorted)
  have h7: "example_ranked =
      slice_to example_ranked (py_round (fl_mul exact_arithmetic (real 4) 1))"
    by (simp only: example_parents)
  have h8: "(1::nat) < 4 \<longrightarrow> 1 \<le> py_round (fl_mul exact_arithmetic (real 4) 1)"
    by (simp only: example_round) simp
  have h9: "\<forall>i<4 - 1. select_parents example_ranked (selecting (example_draws i)) \<noteq> None"
    by (simp add: ranked_select)
  have h0: "(1::nat) \<le> 1"
    by simp
  from next_generation_result [OF h1 h2 h0 h3 h4 h5 h6 h7 h8 h9] show ?thesis
    by blast
qed

text \<open>
  C8 (as amended). A random initialization with \<open>features + hidden > 0\<close> returns a weight
  vector of length \<open>features * hidden + hidden + hidden + 1\<close>. Mutation returns a vector
  as long as its source. Each crossover strategy applied to parents of equal length (at
  least 2 for the single-point strategy) returns an offspring as long as the parents,
  always with the default architecture of 6 features and 8 hidden units, which \<open>cross\<close>
  does not take from the parents. Inference leaves the weight vector and the
  architecture of a controller as they are. And when all controllers of a population
  have \<open>L\<close> weights, all controllers of the next generation have \<open>L\<close> weights and the
  default architecture; for \<open>L = 65\<close>, the length of a randomly initialized default
  controller, that is \<open>features * hidden + hidden + hidden + 1\<close>.
\<close>

theorem weight_vector_length_preserved:
  "(0 < F + H \<longrightarrow>
      (\<exists>c. Genetic_AI None F H mutate noise_sd u = Inr c \<and>
           length (genotype c) = total_weights F H \<and>
           num_features c = F \<and> hidden_size c = H)) \<and>
   (0 \<le> noise_sd \<longrightarrow>
      (\<exists>c. Genetic_AI (Some g) F H True noise_sd z = Inr c \<and>
           length (genotype c) = length g)) \<and>
   (length (genotype a1) = length (genotype a2) \<and>
    (aggregate \<noteq> ''uniform'' \<and> aggregate \<noteq> ''blend'' \<longrightarrow> 2 \<le> length (genotype a1)) \<longrightarrow>
      (\<exists>child. cross a1 a2 aggregate d = Inr child \<and>
           length (genotype child) = length (genotype a1) \<and>
           num_features child = 6 \<and> hidden_size child = 8)) \<and>
   (genotype (snd (getMove c s)) = genotype c \<and>
    num_features (snd (getMove c s)) = num_features c \<and>
    hidden_size (snd (getMove c s)) = hidden_size c) \<and>
   ((\<forall>c\<in>set population. length (genotype c) = L) \<and>
    next_generation ar population pop_size num_elite survival_rate strategy draws =
      Some (Inr next_gen) \<longrightarrow>
      (\<forall>c\<in>set next_gen.
         length (genotype c) = L \<and> num_features c = 6 \<and> hidden_size c = 8 \<and>
         (L = 65 \<longrightarrow> length (genotype c) = total_weights (num_features c) (hidden_size c))))"
proof (intro conjI impI)
  assume "0 < F + H"
  then show "\<exists>c. Genetic_AI None F H mutate noise_sd u = Inr c \<and>
           length (genotype c) = total_weights F H \<and>
           num_features c = F \<and> hidden_size c = H"
    by (rule xavier_returns)
next
  assume "0 \<le> noise_sd"
  then show "\<exists>c. Genetic_AI (Some g) F H True noise_sd z = Inr c \<and>
           length (genotype c) = length g"
    by (simp add: Genetic_AI_mutated np_clip_def)
next
  assume a: "length (genotype a1) = length (genotype a2) \<and>
    (aggregate \<noteq> ''uniform'' \<and> aggregate \<noteq> ''blend'' \<longrightarrow> 2 \<le> length (genotype a1))"
  then have eq: "length (genotype a1) = length (genotype a2)"
    and single: "aggregate \<noteq> ''uniform'' \<and> aggregate \<noteq> ''blend'' \<longrightarrow> 2 \<le> length (genotype a1)"
    by blast+
  from cross_returns [OF eq single, of d] obtain child where
    cr: "cross a1 a2 aggregate d = Inr child" by blast
  from cross_length [OF cr eq] cr
  show "\<exists>child. cross a1 a2 aggregate d = Inr child \<and>
           length (genotype child) = length (genotype a1) \<and>
           num_features child = 6 \<and> hidden_size child = 8"
    by blast
next
  show "genotype (snd (getMove c s)) = genotype c"
    "num_features (snd (getMove c s)) = num_features c"
    "hidden_size (snd (getMove c s)) = hidden_size c"
    using getMove_keeps_weights [of c s] by simp_all
next
  assume a: "(\<forall>c\<in>set population. length (genotype c) = L) \<and>
    next_generation ar population pop_size num_elite survival_rate strategy draws =
      Some (Inr next_gen)"
  then have lens: "\<forall>c\<in>set population. length (genotype c) = L"
    and run: "next_generation ar population pop_size num_elite survival_rate strategy draws =
      Some (Inr next_gen)"
    by simp_all
  from next_generation_members [OF run lens]
  show "\<forall>c\<in>set next_gen.
         length (genotype c) = L \<and> num_features c = 6 \<and> hidden_size c = 8 \<and>
         (L = 65 \<longrightarrow> length (genotype c) = total_weights (num_features c) (hidden_size c))"
    by (simp add: total_weights_def)
qed

theorem weight_vector_length_preserved_witness:
  "(0::nat) < 6 + 8 \<and>
   (\<exists>c. Genetic_AI None 6 8 False (1 / 10) (\<lambda>i. 1 / 2) = Inr c \<and>
        length (genotype c) = total_weights 6 8) \<and>
   (0::real) \<le> 1 / 10 \<and>
   (\<exists>c. Genetic_AI (Some [1, 2]) 6 8 True (1 / 10) (\<lambda>i. 5) = Inr c \<and>
        length (genotype c) = length [1, 2 :: real]) \<and>
   (\<exists>child. cross (example_pool ! 0) (example_pool ! 1) ''single'' (crossing (example_draws 0))
        = Inr child \<and> length (genotype child) = length (genotype (example_pool ! 0))) \<and>
   (\<exists>next_gen.
      next_generation exact_arithmetic example_pool 4 1 1 ''blend'' example_draws =
        Some (Inr next_gen) \<and>
      (\<forall>c\<in>set next_gen. length (genotype c) = 2 \<and> num_features c = 6 \<and> hidden_size c = 8))"
proof -
  from example_generation_returns obtain ng where
    run: "next_generation exact_arithmetic example_pool 4 1 1 ''blend'' example_draws = Some (Inr ng)"
    by blast
  have h1: "(0::nat) < 6 + 8" by simp
  have h2: "(0::real) \<le> 1 / 10" by simp
  have h3: "length (genotype (example_pool ! 0)) = length (genotype (example_pool ! 1)) \<and>
    (''single'' \<noteq> ''uniform'' \<and> ''single'' \<noteq> ''blend''
       \<longrightarrow> 2 \<le> length (genotype (example_pool ! 0)))"
    by (simp add: example_pool_def)
  have h4: "(\<forall>c\<in>set example_pool. length (genotype c) = 2) \<and>
    next_generation exact_arithmetic example_pool 4 1 1 ''blend'' example_draws = Some (Inr ng)"
    using run by (simp add: example_pool_def)
  note inst = weight_vector_length_preserved
    [where F = 6 and H = 8 and mutate = False and noise_sd = "1 / 10" and u = "\<lambda>i. 1 / 2"
       and g = "[1, 2]" and z = "\<lambda>i. 5"
       and ?a1.0 = "example_pool ! 0" and ?a2.0 = "example_pool ! 1"
       and aggregate = "''single''" and d = "crossing (example_draws 0)"
       and population = example_pool and L = 2 and pop_size = 4 and num_elite = 1
       and ar = exact_arithmetic and survival_rate = 1 and strategy = "''blend''" and draws = example_draws
       and next_gen = ng and c = "example_pool ! 0" and s = "(0, 200, 256, 1)"]
  note p1 = inst [THEN conjunct1, THEN mp, OF h1]
  note p2 = inst [THEN conjunct2, THEN conjunct1, THEN mp, OF h2]
  note p3 = inst [THEN conjunct2, THEN conjunct2, THEN conjunct1, THEN mp, OF h3]
  note p5 = inst [THEN conjunct2, THEN conjunct2, THEN conjunct2, THEN conjunct2, THEN mp, OF h4]
  from p1 have "\<exists>c. Genetic_AI None 6 8 False (1 / 10) (\<lambda>i. 1 / 2) = Inr c \<and>
        length (genotype c) = total_weights 6 8"
    by blast
  moreover from p2 have "\<exists>c. Genetic_AI (Some [1, 2]) 6 8 True (1 / 10) (\<lambda>i. 5) = Inr c \<and>
        length (genotype c) = length [1, 2 :: real]"
    by blast
  moreover from p3 have "\<exists>child.
      cross (example_pool ! 0) (example_pool ! 1) ''single'' (crossing (example_draws 0))
        = Inr child \<and> length (genotype child) = length (genotype (example_pool ! 0))"
    by blast
  moreover from p5 have
    "\<forall>c\<in>set ng. length (genotype c) = 2 \<and> num_features c = 6 \<and> hidden_size c = 8"
    by blast
  ultimately show ?thesis
    using h1 h2 run by blast
qed

text \<open>
  C8 as stated fails: two parents with two features and two hidden units, each with the
  9 weights that architecture calls for, have an offspring of 9 weights and the default
  architecture, which calls for 65.
\<close>

theorem crossover_length_counterexample:
  "\<exists>child.
     cross \<lparr>num_features = 2, hidden_size = 2, genotype = replicate 9 1,
            fit_score = 0, fit_rel = 0, previous_y = None\<rparr>
           \<lparr>num_features = 2, hidden_size = 2, genotype = replicate 9 2,
            fit_score = 0, fit_rel = 0, previous_y = None\<rparr>
           ''uniform'' \<lparr>coins = \<lambda>i. 0, cut_draw = 0, noise_draws = \<lambda>i. 0\<rparr> = Inr child \<and>
     length (replicate 9 (1::real)) = length (replicate 9 (2::real)) \<and>
     length (replicate 9 (1::real)) = total_weights 2 2 \<and>
     length (genotype child) = 9 \<and>
     length (genotype child) \<noteq> total_weights (num_features child) (hidden_size child)"
proof -
  let ?a = "\<lparr>num_features = 2, hidden_size = 2, genotype = replicate 9 (1::real),
            fit_score = 0, fit_rel = 0, previous_y = None\<rparr>"
  let ?b = "\<lparr>num_features = 2, hidden_size = 2, genotype = replicate 9 (2::real),
            fit_score = 0, fit_rel = 0, previous_y = None\<rparr>"
  let ?d = "\<lparr>coins = \<lambda>i. 0, cut_draw = 0, noise_draws = \<lambda>i. 0\<rparr>"
  have eq: "length (genotype ?a) = length (genotype ?b)" by simp
  have single: "''uniform'' \<noteq> ''uniform'' \<and> ''uniform'' \<noteq> ''blend''
     \<longrightarrow> 2 \<le> length (genotype ?a)" by simp
  from cross_returns [OF eq single, of ?d] obtain child where
    cr: "cross ?a ?b ''uniform'' ?d = Inr child" by blast
  from cross_length [OF cr eq] have
    "length (genotype child) = 9" "num_features child = 6" "hidden_size child = 8"
    by simp_all
  then have "length (genotype child) \<noteq> total_weights (num_features child) (hidden_size child)"
    by (simp add: total_weights_def)
  with cr \<open>length (genotype child) = 9\<close> show ?thesis
    by (simp add: total_weights_def)
qed

section \<open>export_weights.py: loading exported weights\<close>

text \<open>
  The export file as \<open>json.load\<close> returns it: the weights, the fitness, the declared
  architecture with its \<open>total_weights\<close>, and the metadata.
\<close>

record architecture =
  declared_num_features :: nat
  declared_hidden_size :: nat
  declared_total_weights :: nat

record export_data =
  weights :: "real list"
  fitness :: real
  architecture :: architecture
  export_timestamp :: string
  model_type :: string

text \<open>
  \<open>load_and_test_exported_weights\<close>. The file is \<open>None\<close> when it does not exist: the function
  catches \<open>FileNotFoundError\<close> and returns \<open>None\<close>. Otherwise it builds the agent from
  \<open>data['weights']\<close>, runs three test episodes of the environment, each after a reset of
  \<open>previous_y\<close> (the loop of \<open>compute_fitness\<close> again), and returns the agent; no other
  exception is caught. The fields \<open>fitness\<close> and \<open>architecture\<close> are only printed.
\<close>

definition load_and_test_exported_weights ::
  "export_data option \<Rightarrow> environment \<Rightarrow> error + controller option" where
  "load_and_test_exported_weights file mains =
     (case file of
        None \<Rightarrow> Inr None
      | Some data \<Rightarrow>
          (case Genetic_AI (Some (weights data)) 6 8 False 0.1 (\<lambda>k. 0) of
             Inl e \<Rightarrow> Inl e
           | Inr agent \<Rightarrow>
               (case run_trials mains agent [0..<3] [] of
                  Inl e \<Rightarrow> Inl e
                | Inr (test_scores, agent') \<Rightarrow> Inr (Some agent'))))"

text \<open>
  An environment to run the import on: an episode that asks the agent for one move and
  ends with score 1. Two export files: one with the 65 weights it declares, one that
  declares 65 and holds 66.
\<close>

definition one_step_episode :: environment where
  "one_step_episode trial agent =
     (case getMove agent (0, 200, 256, 1) of
        (Inl e, agent') \<Rightarrow> Inl e
      | (Inr decision, agent') \<Rightarrow> Inr (1, agent'))"

definition oversized_export :: export_data where
  "oversized_export =
     \<lparr>weights = replicate 66 0, fitness = 150,
      architecture = \<lparr>declared_num_features = 6, declared_hidden_size = 8,
                       declared_total_weights = 65\<rparr>,
      export_timestamp = ''2024-01-01T00:00:00'', model_type = ''enhanced_neural_network''\<rparr>"

definition matching_export :: export_data where
  "matching_export =
     \<lparr>weights = replicate 65 0, fitness = 150,
      architecture = \<lparr>declared_num_features = 6, declared_hidden_size = 8,
                       declared_total_weights = 65\<rparr>,
      export_timestamp = ''2024-01-01T00:00:00'', model_type = ''enhanced_neural_network''\<rparr>"

lemma getMove_accepts_longer:
  assumes "num_features c = 6"
    and "total_weights 6 (hidden_size c) \<le> length (genotype c)"
  shows "\<exists>decision. getMove c (s0, s1, s2, s3) = (Inr decision, c\<lparr>previous_y := Some s2\<rparr>)"
proof -
  let ?c' = "c\<lparr>previous_y := Some s2\<rparr>"
  let ?x = "[s0 / 256, s1 / 568, s2 / 512,
            (case previous_y c of Some py \<Rightarrow> s2 - py | None \<Rightarrow> 0) / 10,
            min (s1 / 568) 1, if \<bar>s0\<bar> < 50 then 1 else 0]"
  have "total_weights (num_features ?c') (hidden_size ?c') \<le> length (genotype ?c')"
    using assms by simp
  moreover have "length ?x = num_features ?c'"
    using assms(1) by simp
  ultimately have "forward_pass ?c' ?x =
      Inr (spec_output (genotype ?c') (num_features ?c') (hidden_size ?c') ?x)"
    by (rule forward_pass_spec)
  then show ?thesis
    unfolding getMove_def Let_def prod.case by simp
qed

lemma load_reconstructs:
  "load_and_test_exported_weights (Some data) mains =
     (case run_trials mains
             \<lparr>num_features = 6, hidden_size = 8, genotype = weights data,
              fit_score = 0, fit_rel = 0, previous_y = None\<rparr> [0..<3] [] of
        Inl e \<Rightarrow> Inl e
      | Inr (test_scores, agent') \<Rightarrow> Inr (Some agent'))"
  by (simp add: load_and_test_exported_weights_def Genetic_AI_unmutated)

lemma one_step_episode_returns:
  assumes "num_features a = 6" and "hidden_size a = 8" and "65 \<le> length (genotype a)"
  shows "one_step_episode t a = Inr (1, a\<lparr>previous_y := Some 256\<rparr>)"
proof -
  have "total_weights 6 (hidden_size a) \<le> length (genotype a)"
    using assms by (simp add: total_weights_def)
  from getMove_accepts_longer [OF assms(1) this, of 0 200 256 1] show ?thesis
    by (auto simp add: one_step_episode_def)
qed

lemma zero_weights_run:
  assumes "65 \<le> n"
  shows "run_trials one_step_episode
     \<lparr>num_features = 6, hidden_size = 8, genotype = replicate n 0,
      fit_score = 0, fit_rel = 0, previous_y = None\<rparr> [0..<3] [] =
   Inr ([1, 1, 1],
        \<lparr>num_features = 6, hidden_size = 8, genotype = replicate n 0,
         fit_score = 0, fit_rel = 0, previous_y = Some 256\<rparr>)"
proof -
  have three: "[0..<3] = [0, 1, 2]"
    by (simp add: upt_rec)
  have step: "one_step_episode t
      \<lparr>num_features = 6, hidden_size = 8, genotype = replicate n 0,
       fit_score = 0, fit_rel = 0, previous_y = None\<rparr> =
    Inr (1, \<lparr>num_features = 6, hidden_size = 8, genotype = replicate n 0,
       fit_score = 0, fit_rel = 0, previous_y = Some 256\<rparr>)" for t
    using assms one_step_episode_returns
      [of "\<lparr>num_features = 6, hidden_size = 8, genotype = replicate n 0,
       fit_score = 0, fit_rel = 0, previous_y = None\<rparr>" t]
    by simp
  show ?thesis
    unfolding three by (simp add: step)
qed

text \<open>
  C9 (as amended). The importer compares the length of the weights array with nothing:
  it hands the array to the constructor, which stores it whatever its length and
  whatever \<open>total_weights\<close> the file declares, and when the three test episodes return
  it returns the controller.
\<close>

theorem import_without_validation:
  assumes "run_trials mains
             \<lparr>num_features = 6, hidden_size = 8, genotype = weights data,
              fit_score = 0, fit_rel = 0, previous_y = None\<rparr> [0..<3] [] =
             Inr (test_scores, agent')"
  shows "Genetic_AI (Some (weights data)) 6 8 False 0.1 (\<lambda>k. 0) =
           Inr \<lparr>num_features = 6, hidden_size = 8, genotype = weights data,
                fit_score = 0, fit_rel = 0, previous_y = None\<rparr> \<and>
         load_and_test_exported_weights (Some data) mains = Inr (Some agent')"
  using assms by (simp add: load_reconstructs Genetic_AI_unmutated)

theorem import_without_validation_witness:
  "run_trials one_step_episode
     \<lparr>num_features = 6, hidden_size = 8, genotype = weights matching_export,
      fit_score = 0, fit_rel = 0, previous_y = None\<rparr> [0..<3] [] =
     Inr ([1, 1, 1],
          \<lparr>num_features = 6, hidden_size = 8, genotype = replicate 65 0,
           fit_score = 0, fit_rel = 0, previous_y = Some 256\<rparr>) \<and>
   load_and_test_exported_weights (Some matching_export) one_step_episode =
     Inr (Some \<lparr>num_features = 6, hidden_size = 8, genotype = replicate 65 0,
                fit_score = 0, fit_rel = 0, previous_y = Some 256\<rparr>)"
proof -
  have w: "weights matching_export = replicate 65 0"
    by (simp add: matching_export_def)
  have h: "run_trials one_step_episode
     \<lparr>num_features = 6, hidden_size = 8, genotype = weights matching_export,
      fit_score = 0, fit_rel = 0, previous_y = None\<rparr> [0..<3] [] =
     Inr ([1, 1, 1],
          \<lparr>num_features = 6, hidden_size = 8, genotype = replicate 65 0,
           fit_score = 0, fit_rel = 0, previous_y = Some 256\<rparr>)"
    unfolding w by (rule zero_weights_run) simp
  from import_without_validation [OF h] h show ?thesis
    by blast
qed

text \<open>
  C9 as stated fails: a file that declares 65 weights and holds 66 is imported without
  any error, and the controller runs with all 66; inference reads the first 65.
\<close>

theorem import_length_mismatch_counterexample:
  "length (weights oversized_export) \<noteq> declared_total_weights (architecture oversized_export) \<and>
   load_and_test_exported_weights (Some oversized_export) one_step_episode =
     Inr (Some \<lparr>num_features = 6, hidden_size = 8, genotype = weights oversized_export,
                fit_score = 0, fit_rel = 0, previous_y = Some 256\<rparr>)"
proof -
  have w: "weights oversized_export = replicate 66 0"
    by (simp add: oversized_export_def)
  have "length (weights oversized_export) \<noteq>
          declared_total_weights (architecture oversized_export)"
    by (simp add: oversized_export_def)
  moreover have "load_and_test_exported_weights (Some oversized_export) one_step_episode =
     Inr (Some \<lparr>num_features = 6, hidden_size = 8, genotype = weights oversized_export,
                fit_score = 0, fit_rel = 0, previous_y = Some 256\<rparr>)"
    unfolding load_reconstructs w by (simp add: zero_weights_run)
  ultimately show ?thesis by blast
qed

text \<open>
  With fewer weights than declared the import does fail, but not by a check of its own:
  the first inference of the first test episode raises in \<open>reshape\<close>.
\<close>

lemma undersized_import_fails_late:
  "load_and_test_exported_weights
     (Some (oversized_export\<lparr>weights := [1, 2, 3]\<rparr>)) one_step_episode = Inl ValueError"
proof -
  have "[0..<3] = [0, 1, 2]"
    by (simp add: upt_rec)
  then show ?thesis
    by (simp add: load_reconstructs one_step_episode_def getMove_def forward_pass_def
        reshape_def Let_def)
qed

end
